theory Spec2Isabelle
  imports Complex_Main "HOL-Library.Char_ord" "HOL-Library.List_Lexorder"
    "HOL-Library.Product_Lexorder"
begin

section \<open>The network container and its tables\<close>

text \<open>
  The functions of \<^verbatim>\<open>etrago/extras/utilities.py\<close> work on a PyPSA network: an object
  whose attributes are pandas tables. A table is modelled as the list of its rows, in
  the order of the table; every row carries its index label and the columns the code
  reads, and the extension part of the row record stands for all the columns the code
  never looks at. Index labels are strings, as PyPSA stores them.
\<close>

type_synonym label = string

record row =
  index :: label

record 'v bus = row +
  v_nom :: 'v

text \<open>Lines and transformers are branches: both have the columns \<^verbatim>\<open>bus0\<close>, \<^verbatim>\<open>bus1\<close>.\<close>

record branch = row +
  bus0 :: label
  bus1 :: label

text \<open>
  A time-dependent table (\<^verbatim>\<open>network.generators_t.p\<close> and the like) has the snapshots
  as its index and component labels as its columns. It is modelled column by column:
  a list of pairs of a column label and the column's values, one value per snapshot.
\<close>

type_synonym 'f frame = "(label \<times> 'f list) list"

text \<open>
  The network object. The five component tables come first; \<^verbatim>\<open>carriers\<close> holds the names
  in the carrier table, \<^verbatim>\<open>snapshots\<close> the snapshot index, and the remaining fields are the
  time-dependent tables the code touches. The type parameters are the row types of the five
  tables, the type \<open>'s\<close> of a snapshot and the type \<open>'f\<close> of a floating-point cell.
\<close>

record ('b, 'l, 't, 'g, 'd, 's, 'f) network =
  buses :: "'b list"
  lines :: "'l list"
  transformers :: "'t list"
  generators :: "'g list"
  loads :: "'d list"
  carriers :: "label list"
  snapshots :: "'s list"
  loads_t_p_set :: "'f frame"
  generators_t_p_set :: "'f frame"
  generators_t_p :: "'f frame"

section \<open>The pandas operations the queries use\<close>

text \<open>\<^verbatim>\<open>series.isin(values)\<close>: the boolean mask, one entry per element of the series.\<close>

definition isin :: "'a list \<Rightarrow> 'a list \<Rightarrow> bool list" where
  "isin series vals = map (\<lambda>x. x \<in> set vals) series"

text \<open>Element-wise \<^verbatim>\<open>|\<close> and \<^verbatim>\<open>&\<close> of two masks over the same index.\<close>

definition mask_or :: "bool list \<Rightarrow> bool list \<Rightarrow> bool list" where
  "mask_or m1 m2 = map2 (\<or>) m1 m2"

definition mask_and :: "bool list \<Rightarrow> bool list \<Rightarrow> bool list" where
  "mask_and m1 m2 = map2 (\<and>) m1 m2"

text \<open>\<^verbatim>\<open>df[mask]\<close>: a new table holding the rows whose mask entry is true, in order.\<close>

definition boolean_index :: "'r list \<Rightarrow> bool list \<Rightarrow> 'r list" where
  "boolean_index df m = map fst (filter snd (zip df m))"

section \<open>The query functions\<close>

text \<open>
  Python passes the network by reference, so a callee can change the caller's object.
  Each function is therefore modelled in state-passing style: it returns its result
  together with the network as it is after the call.
\<close>

definition buses_of_vlvl ::
  "(('v, 'x) bus_scheme, 'l, 't, 'g, 'd, 's, 'f, 'z) network_scheme \<Rightarrow> 'v list \<Rightarrow>
   label list \<times> (('v, 'x) bus_scheme, 'l, 't, 'g, 'd, 's, 'f, 'z) network_scheme" where
  "buses_of_vlvl network voltage_level =
     (let mask = isin (map v_nom (buses network)) voltage_level;
          df = boolean_index (buses network) mask
      in (map index df, network))"

definition buses_grid_linked ::
  "(('v, 'x) bus_scheme, 'y branch_scheme, 't, 'g, 'd, 's, 'f, 'z) network_scheme \<Rightarrow> 'v list \<Rightarrow>
   label list \<times> (('v, 'x) bus_scheme, 'y branch_scheme, 't, 'g, 'd, 's, 'f, 'z) network_scheme" where
  "buses_grid_linked network voltage_level =
     (let mask = mask_and
            (mask_or (isin (map index (buses network)) (map bus0 (lines network)))
                     (isin (map index (buses network)) (map bus1 (lines network))))
            (isin (map v_nom (buses network)) voltage_level);
          df = boolean_index (buses network) mask
      in (map index df, network))"

definition connected_grid_lines ::
  "('b, 'y branch_scheme, 't, 'g, 'd, 's, 'f, 'z) network_scheme \<Rightarrow> label list \<Rightarrow>
   'y branch_scheme list \<times> ('b, 'y branch_scheme, 't, 'g, 'd, 's, 'f, 'z) network_scheme" where
  "connected_grid_lines network busids =
     (let mask = mask_or (isin (map bus1 (lines network)) busids)
                         (isin (map bus0 (lines network)) busids)
      in (boolean_index (lines network) mask, network))"

definition connected_transformer ::
  "('b, 'l, 'y branch_scheme, 'g, 'd, 's, 'f, 'z) network_scheme \<Rightarrow> label list \<Rightarrow>
   'y branch_scheme list \<times> ('b, 'l, 'y branch_scheme, 'g, 'd, 's, 'f, 'z) network_scheme" where
  "connected_transformer network busids =
     (let mask = isin (map bus0 (transformers network)) busids
      in (boolean_index (transformers network) mask, network))"

section \<open>Floating-point cells\<close>

text \<open>
  The numeric cells of the tables are floating-point numbers. Their type \<open>'f\<close> and the
  numpy and pandas operations on them are parameters, collected in one record: the model
  fixes which operation the code applies to which data, and leaves to the library how the
  operation rounds and how it treats \<^verbatim>\<open>nan\<close> and infinities. \<open>py_float\<close> is the float of a
  Python integer, \<open>float_literal m k\<close> the float written as the decimal literal
  \<open>m / 10 ^ k\<close>, and \<open>float_pow x n\<close> is \<^verbatim>\<open>x ** n\<close>.
\<close>

record 'f floats =
  nan :: 'f
  py_float :: "int \<Rightarrow> 'f"
  series_max :: "'f list \<Rightarrow> 'f"
  series_min :: "'f list \<Rightarrow> 'f"
  np_sum :: "'f list \<Rightarrow> 'f"
  np_min :: "'f list \<Rightarrow> 'f"
  np_mean :: "'f list \<Rightarrow> 'f"
  np_reciprocal :: "'f \<Rightarrow> 'f"
  np_sqrt :: "'f \<Rightarrow> 'f"
  float_add :: "'f \<Rightarrow> 'f \<Rightarrow> 'f"
  float_sub :: "'f \<Rightarrow> 'f \<Rightarrow> 'f"
  float_mul :: "'f \<Rightarrow> 'f \<Rightarrow> 'f"
  float_div :: "'f \<Rightarrow> 'f \<Rightarrow> 'f"
  float_pow :: "'f \<Rightarrow> nat \<Rightarrow> 'f"
  float_literal :: "int \<Rightarrow> nat \<Rightarrow> 'f"

section \<open>Python values and errors\<close>

text \<open>
  A Python exception that leaves a function is the left injection of a sum; the right
  injection is the state (and result) of a call that returns.
\<close>

datatype py_error = ZeroDivisionError | ValueError | TypeError | KeyError | AttributeError
  | OverflowError | FileNotFoundError | FileExistsError | NotADirectoryError | IsADirectoryError


text \<open>\<^verbatim>\<open>range(start, stop)\<close>; \<^verbatim>\<open>range(k)\<close> is \<open>py_range 0 k\<close>.\<close>

definition py_range :: "int \<Rightarrow> int \<Rightarrow> int list" where
  "py_range start stop = map (\<lambda>i. start + int i) [0..<nat (stop - start)]"


section \<open>Looping the linear OPF over time windows\<close>



section \<open>Power flow after the linear OPF\<close>

text \<open>
  \<^verbatim>\<open>df.reindex(columns=new_columns)\<close> on a time-dependent table of \<open>nrows\<close> rows: the
  columns named, in that order, a column the table lacks being filled with \<^verbatim>\<open>nan\<close>.
  pandas returns the table as it is when the labels already agree, and refuses to
  reindex a table whose own column labels repeat.
\<close>

definition reindex_columns ::
  "'f \<Rightarrow> nat \<Rightarrow> 'f frame \<Rightarrow> label list \<Rightarrow> py_error + 'f frame" where
  "reindex_columns fill nrows df new_columns =
     (if map fst df = new_columns then Inr df
      else if \<not> distinct (map fst df) then Inl ValueError
      else Inr (map (\<lambda>c. (c, case map_of df c of
                                Some col \<Rightarrow> col
                              | None \<Rightarrow> replicate nrows fill)) new_columns))"

record 'ti scenario =
  timeindex :: 'ti

text \<open>
  \<^verbatim>\<open>pf_post_lopf\<close> hands back an object, and the question is which one. Network objects
  therefore live in a heap, addressed by references; \<^verbatim>\<open>network_pf = network\<close> copies the
  reference, and every assignment to an attribute of \<^verbatim>\<open>network_pf\<close> updates the heap at
  that reference. PyPSA's \<^verbatim>\<open>network.pf\<close> is the parameter \<open>pf\<close>; its last argument is
  \<^verbatim>\<open>use_seed\<close>.
\<close>

type_synonym ref = nat

type_synonym 'n heap = "ref \<Rightarrow> 'n"

definition pf_post_lopf ::
  "('f, 'y) floats_scheme \<Rightarrow>
   (('b, 'l, 't, 'x row_scheme, 'd, 's, 'f, 'z) network_scheme \<Rightarrow> 'ti \<Rightarrow> bool \<Rightarrow>
      ('b, 'l, 't, 'x row_scheme, 'd, 's, 'f, 'z) network_scheme) \<Rightarrow>
   ('b, 'l, 't, 'x row_scheme, 'd, 's, 'f, 'z) network_scheme heap \<Rightarrow> ref \<Rightarrow>
   ('ti, 'w) scenario_scheme \<Rightarrow>
   py_error + ref \<times> ('b, 'l, 't, 'x row_scheme, 'd, 's, 'f, 'z) network_scheme heap" where
  "pf_post_lopf fl pf heap network scenario =
     (let network_pf = network
      in case reindex_columns (nan fl) (length (snapshots (heap network_pf)))
                (generators_t_p_set (heap network_pf))
                (map index (generators (heap network_pf))) of
           Inl e \<Rightarrow> Inl e
         | Inr reindexed \<Rightarrow>
            (let heap1 = heap(network_pf := (heap network_pf)\<lparr>generators_t_p_set := reindexed\<rparr>);
                 heap2 = heap1(network_pf :=
                           (heap1 network_pf)\<lparr>generators_t_p_set := generators_t_p (heap1 network_pf)\<rparr>);
                 heap3 = heap2(network_pf := pf (heap2 network_pf) (timeindex scenario) True)
             in Inr (network_pf, heap3)))"

section \<open>Index labels and integers\<close>

text \<open>
  PyPSA index labels are strings; the code moves between them and integers with
  \<^verbatim>\<open>str\<close> and \<^verbatim>\<open>astype(int)\<close>, which applies Python's \<^verbatim>\<open>int\<close> to every label.
  \<open>str\<close> prints an integer in decimal, with a minus sign when it is negative.
\<close>

definition digit_char :: "nat \<Rightarrow> char" where
  "digit_char d = ''0123456789'' ! d"

function str_nat :: "nat \<Rightarrow> string" where
  "str_nat n = (if n < 10 then [digit_char n] else str_nat (n div 10) @ [digit_char (n mod 10)])"
  by pat_completeness auto
termination
  by (relation "measure id") auto

declare str_nat.simps [simp del]

definition str :: "int \<Rightarrow> string" where
  "str i = (if i < 0 then CHR ''-'' # str_nat (nat (- i)) else str_nat (nat i))"

text \<open>
  Python's \<^verbatim>\<open>int(s)\<close> on a string: white space around the numeral is dropped, a sign may
  come first, the digits may be grouped by single underscores, and leading zeros are
  allowed. Anything else raises \<^verbatim>\<open>ValueError\<close>. The result is a Python integer, which is
  not bounded. A character stands for the code point of its number, so a string is a
  Python string of code points below 256; among these the white space of \<^verbatim>\<open>int\<close> is the
  blank, the five control characters from tab to carriage return, and the code points
  \<^verbatim>\<open>0x85\<close> and \<^verbatim>\<open>0xA0\<close>.
\<close>

definition digit_val :: "char \<Rightarrow> nat option" where
  "digit_val c =
     map_of [(CHR ''0'', 0), (CHR ''1'', 1), (CHR ''2'', 2), (CHR ''3'', 3), (CHR ''4'', 4),
             (CHR ''5'', 5), (CHR ''6'', 6), (CHR ''7'', 7), (CHR ''8'', 8), (CHR ''9'', 9)] c"

fun digits_val :: "string \<Rightarrow> nat \<Rightarrow> nat option" where
  "digits_val [] acc = Some acc"
| "digits_val [c] acc = (case digit_val c of None \<Rightarrow> None | Some v \<Rightarrow> Some (10 * acc + v))"
| "digits_val (c # d # cs) acc =
     (if c = CHR ''_'' then
        (case digit_val d of None \<Rightarrow> None | Some v \<Rightarrow> digits_val cs (10 * acc + v))
      else
        (case digit_val c of None \<Rightarrow> None | Some v \<Rightarrow> digits_val (d # cs) (10 * acc + v)))"

definition unsigned_val :: "string \<Rightarrow> nat option" where
  "unsigned_val s =
     (case s of [] \<Rightarrow> None
      | c # cs \<Rightarrow> (case digit_val c of None \<Rightarrow> None | Some v \<Rightarrow> digits_val cs v))"

definition is_space :: "char \<Rightarrow> bool" where
  "is_space c =
     (c \<in> set [CHR '' '', CHR 0x09, CHR 0x0A, CHR 0x0B, CHR 0x0C, CHR 0x0D, CHR 0x85, CHR 0xA0])"

definition strip :: "string \<Rightarrow> string" where
  "strip s = rev (dropWhile is_space (rev (dropWhile is_space s)))"

definition py_int :: "string \<Rightarrow> py_error + int" where
  "py_int s =
     (case strip s of
        [] \<Rightarrow> Inl ValueError
      | c # cs \<Rightarrow>
          if c = CHR ''-'' then
            (case unsigned_val cs of None \<Rightarrow> Inl ValueError | Some n \<Rightarrow> Inr (- int n))
          else if c = CHR ''+'' then
            (case unsigned_val cs of None \<Rightarrow> Inl ValueError | Some n \<Rightarrow> Inr (int n))
          else
            (case unsigned_val (c # cs) of None \<Rightarrow> Inl ValueError | Some n \<Rightarrow> Inr (int n)))"

text \<open>
  numpy holds the integers of \<^verbatim>\<open>astype(int)\<close> in 64 bits, two's complement. A label is
  converted with \<^verbatim>\<open>int\<close>, and a result that does not fit raises \<^verbatim>\<open>OverflowError\<close>. The sum
  of two such integers wraps around.
\<close>

definition int64 :: "int \<Rightarrow> bool" where
  "int64 i = (- (2 ^ 63) \<le> i \<and> i < 2 ^ 63)"

definition wrap64 :: "int \<Rightarrow> int" where
  "wrap64 i = (i + 2 ^ 63) mod 2 ^ 64 - 2 ^ 63"

definition np_int64 :: "string \<Rightarrow> py_error + int" where
  "np_int64 s =
     (case py_int s of
        Inl e \<Rightarrow> Inl e
      | Inr i \<Rightarrow> if int64 i then Inr i else Inl OverflowError)"

text \<open>\<^verbatim>\<open>index.astype(int)\<close>: every label is converted; the first failure raises.\<close>

fun astype_int :: "label list \<Rightarrow> py_error + int list" where
  "astype_int [] = Inr []"
| "astype_int (s # ss) =
     (case np_int64 s of
        Inl e \<Rightarrow> Inl e
      | Inr i \<Rightarrow> (case astype_int ss of Inl e \<Rightarrow> Inl e | Inr js \<Rightarrow> Inr (i # js)))"

text \<open>\<^verbatim>\<open>.max()\<close> of an integer index; there is no maximum of an empty index.\<close>

definition index_max :: "int list \<Rightarrow> py_error + int" where
  "index_max xs = (case xs of [] \<Rightarrow> Inl ValueError | y # ys \<Rightarrow> Inr (fold max ys y))"

section \<open>Load shedding\<close>

record 'f generator = row +
  marginal_cost :: 'f
  p_nom :: 'f
  carrier :: string
  bus :: label

text \<open>\<^verbatim>\<open>kwargs.get(key, default)\<close> on the keyword arguments, a dictionary.\<close>

definition kwargs_get :: "(string \<rightharpoonup> 'v) \<Rightarrow> string \<Rightarrow> 'v \<Rightarrow> 'v" where
  "kwargs_get kwargs key dflt = (case kwargs key of None \<Rightarrow> dflt | Some v \<Rightarrow> v)"

text \<open>\<^verbatim>\<open>df.max()\<close>: the series of the column maxima of a time-dependent table.\<close>

definition df_max :: "('f, 'y) floats_scheme \<Rightarrow> 'f frame \<Rightarrow> 'f list" where
  "df_max fl df = map (\<lambda>(c, col). series_max fl col) df"

text \<open>
  \<^verbatim>\<open>pd.DataFrame(dict(marginal_cost=..., p_nom=..., carrier=..., bus=buses.index),
  index=index)\<close>: the scalars are repeated along the index, the array of bus labels must
  be as long as the index.
\<close>

definition generator_frame ::
  "'f \<Rightarrow> 'f \<Rightarrow> string \<Rightarrow> label list \<Rightarrow> label list \<Rightarrow> py_error + 'f generator list" where
  "generator_frame mc pn car bus_col index' =
     (if length bus_col \<noteq> length index' then Inl ValueError
      else Inr (map (\<lambda>(i, b). \<lparr>index = i, marginal_cost = mc, p_nom = pn, carrier = car, bus = b\<rparr>)
                  (zip index' bus_col)))"

text \<open>
  Two operations of PyPSA, which is not part of this repository; they are modelled as
  PyPSA documents and implements them. \<^verbatim>\<open>network.add("Carrier", name)\<close> appends a carrier,
  and logs an error and returns when the name is taken.
  \<^verbatim>\<open>network.import_components_from_dataframe(df, "Generator")\<close> completes the rows of the
  frame with the defaults of the columns the frame lacks (the parameter \<open>defaults\<close>),
  appends them to the generator table, and, when the index of the result is not unique,
  logs an error and returns with the network unchanged.
\<close>

definition network_add_carrier ::
  "('b, 'l, 't, 'g, 'd, 's, 'f, 'z) network_scheme \<Rightarrow> label \<Rightarrow>
   ('b, 'l, 't, 'g, 'd, 's, 'f, 'z) network_scheme" where
  "network_add_carrier network name =
     (if name \<in> set (carriers network) then network
      else network\<lparr>carriers := carriers network @ [name]\<rparr>)"

definition import_components_from_dataframe ::
  "'x \<Rightarrow> ('b, 'l, 't, ('f, 'x) generator_scheme, 'd, 's, 'f, 'z) network_scheme \<Rightarrow>
   'f generator list \<Rightarrow> ('b, 'l, 't, ('f, 'x) generator_scheme, 'd, 's, 'f, 'z) network_scheme" where
  "import_components_from_dataframe defaults network dataframe =
     (let new_df = generators network @
            map (\<lambda>r. \<lparr>index = index r, marginal_cost = marginal_cost r, p_nom = p_nom r,
                       carrier = carrier r, bus = bus r, \<dots> = defaults\<rparr>) dataframe
      in if \<not> distinct (map index new_df) then network
         else network\<lparr>generators := new_df\<rparr>)"

text \<open>
  The local variable \<^verbatim>\<open>index\<close> of \<^verbatim>\<open>load_shedding\<close>: the labels for the new generators.
  \<^verbatim>\<open>start\<close> is a 64-bit integer of numpy, so \<^verbatim>\<open>start + nums\<close> wraps around; \<^verbatim>\<open>range\<close> and
  \<^verbatim>\<open>str\<close> then work on Python integers.
\<close>

definition load_shedding_index ::
  "('x row_scheme, 'l, 't, 'y row_scheme, 'd, 's, 'f, 'z) network_scheme \<Rightarrow> py_error + label list" where
  "load_shedding_index network =
     (case astype_int (map index (generators network)) of
        Inl e \<Rightarrow> Inl e
      | Inr ids \<Rightarrow>
         (case index_max ids of
            Inl e \<Rightarrow> Inl e
          | Inr start \<Rightarrow>
             (let nums = int (length (map index (buses network)));
                  end' = wrap64 (start + nums);
                  index' = py_range start end'
              in Inr (map str index'))))"

text \<open>The data frame that \<^verbatim>\<open>load_shedding\<close> hands to PyPSA.\<close>

definition load_shedding_frame ::
  "('f, 'y) floats_scheme \<Rightarrow>
   ('x row_scheme, 'l, 't, ('f, 'w) generator_scheme, 'd, 's, 'f, 'z) network_scheme \<Rightarrow>
   (string \<rightharpoonup> 'f) \<Rightarrow> py_error + 'f generator list" where
  "load_shedding_frame fl network kwargs =
     (let marginal_cost_def = py_float fl 10000;
          p_nom_def = series_max fl (df_max fl (loads_t_p_set network));
          marginal_cost = kwargs_get kwargs ''marginal_cost'' marginal_cost_def;
          p_nom = kwargs_get kwargs ''p_nom'' p_nom_def
      in case load_shedding_index network of
           Inl e \<Rightarrow> Inl e
         | Inr index' \<Rightarrow>
             generator_frame marginal_cost p_nom ''load shedding''
               (map index (buses network)) index')"

definition load_shedding ::
  "('f, 'y) floats_scheme \<Rightarrow> 'w \<Rightarrow>
   ('x row_scheme, 'l, 't, ('f, 'w) generator_scheme, 'd, 's, 'f, 'z) network_scheme \<Rightarrow>
   (string \<rightharpoonup> 'f) \<Rightarrow>
   py_error + ('x row_scheme, 'l, 't, ('f, 'w) generator_scheme, 'd, 's, 'f, 'z) network_scheme" where
  "load_shedding fl defaults network kwargs =
     (let network' = network_add_carrier network ''load''
      in case load_shedding_frame fl network' kwargs of
           Inl e \<Rightarrow> Inl e
         | Inr dataframe \<Rightarrow> Inr (import_components_from_dataframe defaults network' dataframe))"

section \<open>Grouping parallel lines\<close>

text \<open>
  A line row with the columns that the aggregation names. The single-letter columns
  \<^verbatim>\<open>b\<close>, \<^verbatim>\<open>g\<close>, \<^verbatim>\<open>r\<close>, \<^verbatim>\<open>x\<close> and the columns \<^verbatim>\<open>length\<close> and \<^verbatim>\<open>type\<close> carry the suffix
  \<open>_col\<close>. The geometry columns hold objects of a type \<open>'o\<close>.
\<close>

record ('f, 'o) line = branch +
  b_col :: 'f
  b_pu :: 'f
  cables :: 'f
  capital_cost :: 'f
  frequency :: 'f
  g_col :: 'f
  g_pu :: 'f
  geom :: 'o
  length_col :: 'f
  num_parallel :: 'f
  r_col :: 'f
  r_pu :: 'f
  s_nom :: 'f
  s_nom_extendable :: bool
  s_nom_max :: 'f
  s_nom_min :: 'f
  s_nom_opt :: 'f
  scn_name :: string
  sub_network :: string
  terrain_factor :: 'f
  topo :: 'o
  type_col :: string
  v_ang_max :: 'f
  v_ang_min :: 'f
  x_col :: 'f
  x_pu :: 'f

text \<open>
  The first loop: the two bus labels of a line are read as integers with \<^verbatim>\<open>astype(int)\<close>,
  and the line gets the smaller number, printed, as \<^verbatim>\<open>bus0\<close> and the larger as \<^verbatim>\<open>bus1\<close>.
  A label that is not an integer, or not one of 64 bits, raises. Line labels are unique
  in PyPSA, so the loop over the labels visits the rows one by one.
\<close>

definition order_buses :: "'x branch_scheme \<Rightarrow> py_error + 'x branch_scheme" where
  "order_buses line =
     (case np_int64 (bus0 line) of
        Inl e \<Rightarrow> Inl e
      | Inr i \<Rightarrow>
         (case np_int64 (bus1 line) of
            Inl e \<Rightarrow> Inl e
          | Inr j \<Rightarrow>
             (let bus0_new = str (min i j);
                  bus1_new = str (max i j)
              in Inr (line\<lparr>bus0 := bus0_new, bus1 := bus1_new\<rparr>))))"

fun order_all :: "'x branch_scheme list \<Rightarrow> py_error + 'x branch_scheme list" where
  "order_all [] = Inr []"
| "order_all (line # rest) =
     (case order_buses line of
        Inl e \<Rightarrow> Inl e
      | Inr line' \<Rightarrow> (case order_all rest of Inl e \<Rightarrow> Inl e | Inr rest' \<Rightarrow> Inr (line' # rest')))"

text \<open>
  \<^verbatim>\<open>df.groupby(keys)\<close>: one group for each key value, the groups in ascending key order
  (strings compare as in Python, character by character), the rows of a group in table
  order.
\<close>

definition groupby :: "('r \<Rightarrow> 'k::linorder) \<Rightarrow> 'r list \<Rightarrow> ('k \<times> 'r list) list" where
  "groupby key df = map (\<lambda>k. (k, filter (\<lambda>row. key row = k) df)) (sort (remdups (map key df)))"

text \<open>
  The reducers. \<open>least\<close> is \<^verbatim>\<open>min\<close> on a column that is not numeric (labels and other
  strings, booleans); a group is never empty. \<^verbatim>\<open>x[0]\<close> is the first entry of the group.
\<close>

definition least :: "'a::linorder list \<Rightarrow> 'a" where
  "least xs = fold min (tl xs) (hd xs)"

definition reciprocal_sum :: "('f, 'y) floats_scheme \<Rightarrow> 'f list \<Rightarrow> 'f" where
  "reciprocal_sum fl xs = np_reciprocal fl (np_sum fl (map (np_reciprocal fl) xs))"

text \<open>
  \<^verbatim>\<open>grouped.agg({...})\<close> on one group, followed by the two loops that write the key back
  into \<^verbatim>\<open>bus0\<close> and \<^verbatim>\<open>bus1\<close> and by \<^verbatim>\<open>set_index(old_index)\<close>: the new row. Columns that
  the dictionary does not name are dropped, so the new row has no further columns.
\<close>

definition agg_row ::
  "('f, 'y) floats_scheme \<Rightarrow> (label \<times> label) \<times> ('f, 'o, 'x) line_scheme list \<Rightarrow> ('f, 'o) line" where
  "agg_row fl grp =
     (case grp of (k, rows) \<Rightarrow>
      \<lparr>index = least (map index rows),
       bus0 = fst k,
       bus1 = snd k,
       b_col = np_sum fl (map b_col rows),
       b_pu = np_sum fl (map b_pu rows),
       cables = np_sum fl (map cables rows),
       capital_cost = np_min fl (map capital_cost rows),
       frequency = np_mean fl (map frequency rows),
       g_col = np_sum fl (map g_col rows),
       g_pu = np_sum fl (map g_pu rows),
       geom = hd (map geom rows),
       length_col = series_min fl (map length_col rows),
       num_parallel = np_sum fl (map num_parallel rows),
       r_col = reciprocal_sum fl (map r_col rows),
       r_pu = reciprocal_sum fl (map r_pu rows),
       s_nom = np_sum fl (map s_nom rows),
       s_nom_extendable = least (map s_nom_extendable rows),
       s_nom_max = np_sum fl (map s_nom_max rows),
       s_nom_min = np_sum fl (map s_nom_min rows),
       s_nom_opt = np_sum fl (map s_nom_opt rows),
       scn_name = least (map scn_name rows),
       sub_network = least (map sub_network rows),
       terrain_factor = series_min fl (map terrain_factor rows),
       topo = hd (map topo rows),
       type_col = least (map type_col rows),
       v_ang_max = series_min fl (map v_ang_max rows),
       v_ang_min = series_min fl (map v_ang_min rows),
       x_col = reciprocal_sum fl (map x_col rows),
       x_pu = reciprocal_sum fl (map x_pu rows)\<rparr>)"

definition group_parallel_lines ::
  "('f, 'y) floats_scheme \<Rightarrow> ('b, ('f, 'o, 'x) line_scheme, 't, 'g, 'd, 's, 'f, 'z) network_scheme \<Rightarrow>
   py_error + ('b, ('f, 'o) line, 't, 'g, 'd, 's, 'f, 'z) network_scheme" where
  "group_parallel_lines fl network =
     (case order_all (lines network) of
        Inl e \<Rightarrow> Inl e
      | Inr old_lines \<Rightarrow>
         (let grouped = groupby (\<lambda>line. (bus0 line, bus1 line)) old_lines;
              new_lines = map (agg_row fl) grouped
          in Inr \<lparr>buses = buses network, lines = new_lines,
                   transformers = transformers network, generators = generators network,
                   loads = loads network, carriers = carriers network,
                   snapshots = snapshots network, loads_t_p_set = loads_t_p_set network,
                   generators_t_p_set = generators_t_p_set network,
                   generators_t_p = generators_t_p network, \<dots> = network.more network\<rparr>))"

text \<open>
  The unordered pair of bus numbers of a line, as the pair of the smaller and the larger
  number; \<open>None\<close> when a label is not read as an integer.
\<close>

definition bus_pair :: "'x branch_scheme \<Rightarrow> (int \<times> int) option" where
  "bus_pair line =
     (case np_int64 (bus0 line) of
        Inl e \<Rightarrow> None
      | Inr i \<Rightarrow> (case np_int64 (bus1 line) of Inl e \<Rightarrow> None | Inr j \<Rightarrow> Some (min i j, max i j)))"

section \<open>Exporting results to disk\<close>




text \<open>The \<^verbatim>\<open>path\<close> argument is \<^verbatim>\<open>False\<close> or a string.\<close>

datatype py_path = PyFalse | Path string













section \<open>Line and transformer losses\<close>

text \<open>
  The lines of eTraGo carry the nominal voltage as a further column; transformers have a
  rated power. The suffixes keep the field names apart from the columns of the same name
  in other tables.
\<close>

record ('f, 'o) eline = "('f, 'o) line" +
  line_v_nom :: 'f

record 'f transformer = branch +
  trafo_s_nom :: 'f

text \<open>
  A network with power-flow results: the active and reactive power at \<^verbatim>\<open>bus0\<close> of every
  line and snapshot, and the table of losses that \<^verbatim>\<open>calc_line_losses\<close> sets.
\<close>

record ('b, 'l, 't, 'g, 'd, 's, 'f) pf_network =
  "('b, 'l, 't, 'g, 'd, 's, 'f) network" +
  lines_t_p0 :: "'f frame"
  lines_t_q0 :: "'f frame"
  lines_t_losses :: "'f frame"

text \<open>
  A column of a component table is a series: values labelled by the index. Arithmetic
  between two frames, and between a frame and a series, aligns labels first: the frame's
  columns with the other operand's labels. The result has the common labels when both
  sides agree, and the sorted union otherwise, with \<^verbatim>\<open>nan\<close> where a side has no entry.
  Labels are unique in PyPSA; rows are the snapshots on both sides.
\<close>

definition series :: "('r \<Rightarrow> 'f) \<Rightarrow> ('r \<Rightarrow> label) \<Rightarrow> 'r list \<Rightarrow> (label \<times> 'f) list" where
  "series col idx df = map (\<lambda>row. (idx row, col row)) df"

definition union_labels :: "label list \<Rightarrow> label list \<Rightarrow> label list" where
  "union_labels a b' =
     (if a = b' then a else if a = [] then b' else if b' = [] then a
      else sort (remdups (a @ b')))"

definition column_of :: "'f \<Rightarrow> nat \<Rightarrow> 'f frame \<Rightarrow> label \<Rightarrow> 'f list" where
  "column_of fill nrows df c = (case map_of df c of None \<Rightarrow> replicate nrows fill | Some col \<Rightarrow> col)"

definition value_of :: "'f \<Rightarrow> (label \<times> 'f) list \<Rightarrow> label \<Rightarrow> 'f" where
  "value_of fill ser c = (case map_of ser c of None \<Rightarrow> fill | Some v \<Rightarrow> v)"

definition frame_map :: "('f \<Rightarrow> 'f) \<Rightarrow> 'f frame \<Rightarrow> 'f frame" where
  "frame_map f df = map (\<lambda>(c, col). (c, map f col)) df"

definition series_map :: "('f \<Rightarrow> 'f) \<Rightarrow> (label \<times> 'f) list \<Rightarrow> (label \<times> 'f) list" where
  "series_map f ser = map (\<lambda>(c, v). (c, f v)) ser"

definition frame_frame ::
  "'f \<Rightarrow> nat \<Rightarrow> ('f \<Rightarrow> 'f \<Rightarrow> 'f) \<Rightarrow> 'f frame \<Rightarrow> 'f frame \<Rightarrow> 'f frame" where
  "frame_frame fill nrows op df1 df2 =
     map (\<lambda>c. (c, map2 op (column_of fill nrows df1 c) (column_of fill nrows df2 c)))
       (union_labels (map fst df1) (map fst df2))"

definition frame_series ::
  "'f \<Rightarrow> nat \<Rightarrow> ('f \<Rightarrow> 'f \<Rightarrow> 'f) \<Rightarrow> 'f frame \<Rightarrow> (label \<times> 'f) list \<Rightarrow> 'f frame" where
  "frame_series fill nrows op df ser =
     map (\<lambda>c. (c, map (\<lambda>v. op v (value_of fill ser c)) (column_of fill nrows df c)))
       (union_labels (map fst df) (map fst ser))"

text \<open>
  \<^verbatim>\<open>df.assign(losses=values)\<close> with an array: a new table with the column set by
  position, which needs as many values as rows. A row of the new table is the old row
  paired with its \<^verbatim>\<open>losses\<close>.
\<close>

definition assign :: "'r list \<Rightarrow> 'f list \<Rightarrow> py_error + ('r \<times> 'f) list" where
  "assign df vals = (if length vals \<noteq> length df then Inl ValueError else Inr (zip df vals))"

text \<open>
  The three tables of \<^verbatim>\<open>calc_line_losses\<close>, named as in the source: apparent power,
  current, and losses per line and snapshot.
\<close>

definition s0_lines where
  "s0_lines fl network =
     frame_map (np_sqrt fl)
       (frame_frame (nan fl) (length (snapshots network)) (float_add fl)
          (frame_map (\<lambda>v. float_pow fl v 2) (lines_t_p0 network))
          (frame_map (\<lambda>v. float_pow fl v 2) (lines_t_q0 network)))"

definition i0_lines where
  "i0_lines fl network =
     frame_series (nan fl) (length (snapshots network)) (float_div fl)
       (frame_map (\<lambda>v. float_mul fl v (py_float fl 1000000)) (s0_lines fl network))
       (series_map (\<lambda>v. float_mul fl v (py_float fl 1000))
          (series line_v_nom index (lines network)))"

definition losses_t where
  "losses_t fl network =
     frame_map (\<lambda>v. float_div fl v (py_float fl 1000000))
       (frame_series (nan fl) (length (snapshots network)) (float_mul fl)
          (frame_map (\<lambda>v. float_pow fl v 2) (i0_lines fl network))
          (series r_col index (lines network)))"

text \<open>
  \<^verbatim>\<open>calc_line_losses\<close> sets \<^verbatim>\<open>lines_t.losses\<close>, then the \<^verbatim>\<open>losses\<close> columns of lines and
  transformers. The two totals it prints at the end do not change the network.
\<close>

definition calc_line_losses where
  "calc_line_losses fl network =
     (let losses = losses_t fl network
      in case assign (lines network) (map (\<lambda>(c, col). np_sum fl col) losses) of
           Inl e \<Rightarrow> Inl e
         | Inr new_lines \<Rightarrow>
            (case assign (transformers network)
                    (map (\<lambda>v. float_mul fl v (float_sub fl (py_float fl 1) (float_literal fl 998 3)))
                       (map trafo_s_nom (transformers network))) of
               Inl e \<Rightarrow> Inl e
             | Inr new_transformers \<Rightarrow>
                Inr \<lparr>buses = buses network, lines = new_lines,
                     transformers = new_transformers, generators = generators network,
                     loads = loads network, carriers = carriers network,
                     snapshots = snapshots network, loads_t_p_set = loads_t_p_set network,
                     generators_t_p_set = generators_t_p_set network,
                     generators_t_p = generators_t_p network,
                     lines_t_p0 = lines_t_p0 network, lines_t_q0 = lines_t_q0 network,
                     lines_t_losses = losses, \<dots> = pf_network.more network\<rparr>))"


text \<open>
  The formulas as the specification words them: the current
  \<open>I = sqrt(p0^2 + q0^2) * 10^6 / (v_nom * 10^3)\<close> and the loss \<open>I^2 * r / 10^6\<close>, in the
  library's floating-point operations.
\<close>

definition current :: "('f, 'y) floats_scheme \<Rightarrow> 'f \<Rightarrow> 'f \<Rightarrow> 'f \<Rightarrow> 'f" where
  "current fl p0 q0 v =
     float_div fl
       (float_mul fl (np_sqrt fl (float_add fl (float_pow fl p0 2) (float_pow fl q0 2)))
          (py_float fl 1000000))
       (float_mul fl v (py_float fl 1000))"

definition line_loss :: "('f, 'y) floats_scheme \<Rightarrow> 'f \<Rightarrow> 'f \<Rightarrow> 'f \<Rightarrow> 'f \<Rightarrow> 'f" where
  "line_loss fl p0 q0 v r =
     float_div fl (float_mul fl (float_pow fl (current fl p0 q0 v) 2) r) (py_float fl 1000000)"

section \<open>Notions used in the proofs\<close>

text \<open>
  The value of a string of digits read without regard to grouping, for the proofs about
  \<open>digits_val\<close>.
\<close>

definition plain_val :: "string \<Rightarrow> nat \<Rightarrow> nat" where
  "plain_val ds acc = foldl (\<lambda>a c. 10 * a + the (digit_val c)) acc ds"

text \<open>A frame given by a function from labels to columns.\<close>

definition by_label :: "(label \<Rightarrow> 'f list) \<Rightarrow> label list \<Rightarrow> 'f frame" where
  "by_label F ls = map (\<lambda>c. (c, F c)) ls"

section \<open>Example networks\<close>

text \<open>
  An instance of the floating-point operations for the examples: exact arithmetic on the
  real numbers, with \<open>None\<close> for \<^verbatim>\<open>nan\<close>, which the reductions skip as pandas does. The
  reciprocal of zero and a quotient by zero, infinities in numpy, have no value here and
  are given as \<open>None\<close>, as is the root of a negative number; no example needs them.
\<close>

definition lift2 :: "('a \<Rightarrow> 'a \<Rightarrow> 'a option) \<Rightarrow> 'a option \<Rightarrow> 'a option \<Rightarrow> 'a option" where
  "lift2 f x y = (case x of None \<Rightarrow> None | Some a \<Rightarrow> (case y of None \<Rightarrow> None | Some c \<Rightarrow> f a c))"

fun somes :: "'a option list \<Rightarrow> 'a list" where
  "somes [] = []"
| "somes (None # xs) = somes xs"
| "somes (Some x # xs) = x # somes xs"

definition exact :: "real option floats" where
  "exact = \<lparr>nan = None,
     py_float = (\<lambda>i. Some (of_int i)),
     series_max = (\<lambda>xs. case somes xs of [] \<Rightarrow> None | y # ys \<Rightarrow> Some (fold max ys y)),
     series_min = (\<lambda>xs. case somes xs of [] \<Rightarrow> None | y # ys \<Rightarrow> Some (fold min ys y)),
     np_sum = (\<lambda>xs. Some (sum_list (somes xs))),
     np_min = (\<lambda>xs. case somes xs of [] \<Rightarrow> None | y # ys \<Rightarrow> Some (fold min ys y)),
     np_mean = (\<lambda>xs. case somes xs of [] \<Rightarrow> None
                     | y # ys \<Rightarrow> Some (sum_list (y # ys) / of_nat (length (y # ys)))),
     np_reciprocal = (\<lambda>x. case x of None \<Rightarrow> None
                     | Some v \<Rightarrow> if v = 0 then None else Some (1 / v)),
     np_sqrt = (\<lambda>x. case x of None \<Rightarrow> None
                     | Some v \<Rightarrow> if v < 0 then None else Some (sqrt v)),
     float_add = lift2 (\<lambda>a c. Some (a + c)),
     float_sub = lift2 (\<lambda>a c. Some (a - c)),
     float_mul = lift2 (\<lambda>a c. Some (a * c)),
     float_div = lift2 (\<lambda>a c. if c = 0 then None else Some (a / c)),
     float_pow = (\<lambda>x n. case x of None \<Rightarrow> None | Some v \<Rightarrow> Some (v ^ n)),
     float_literal = (\<lambda>m k. Some (of_int m / 10 ^ k))\<rparr>"



text \<open>
  One generator with a dispatch result; a power flow stand-in that changes nothing.
\<close>

definition net_g :: "(unit, unit, unit, row, unit, int, real option) network" where
  "net_g = \<lparr>buses = [], lines = [], transformers = [], generators = [\<lparr>index = ''1''\<rparr>],
     loads = [], carriers = [], snapshots = [0], loads_t_p_set = [],
     generators_t_p_set = [(''1'', [Some 0])], generators_t_p = [(''1'', [Some 5])]\<rparr>"

definition pf_skip :: "'n \<Rightarrow> unit \<Rightarrow> bool \<Rightarrow> 'n" where
  "pf_skip network snaps use_seed = network"

text \<open>One bus, one generator labelled \<^verbatim>\<open>1\<close>, one load over two snapshots.\<close>

definition net_ls :: "(row, unit, unit, real option generator, unit, int, real option) network" where
  "net_ls = \<lparr>buses = [\<lparr>index = ''b1''\<rparr>], lines = [], transformers = [],
     generators = [\<lparr>index = ''1'', marginal_cost = Some 50, p_nom = Some 100,
                    carrier = ''gas'', bus = ''b1''\<rparr>],
     loads = [], carriers = [], snapshots = [0, 1],
     loads_t_p_set = [(''l1'', [Some 5, Some 7])],
     generators_t_p_set = [], generators_t_p = []\<rparr>"

text \<open>The same network with the generator labelled \<^verbatim>\<open>07\<close>.\<close>

definition net_07 :: "(row, unit, unit, real option generator, unit, int, real option) network" where
  "net_07 = \<lparr>buses = [\<lparr>index = ''b1''\<rparr>], lines = [], transformers = [],
     generators = [\<lparr>index = ''07'', marginal_cost = Some 50, p_nom = Some 100,
                    carrier = ''gas'', bus = ''b1''\<rparr>],
     loads = [], carriers = [], snapshots = [0, 1],
     loads_t_p_set = [(''l1'', [Some 5, Some 7])],
     generators_t_p_set = [], generators_t_p = []\<rparr>"

text \<open>
  Three lines: \<^verbatim>\<open>9\<close> and \<^verbatim>\<open>10\<close> join the buses 1 and 2 (in either direction), \<^verbatim>\<open>11\<close> joins
  2 and 3.
\<close>

definition mk_line :: "label \<Rightarrow> label \<Rightarrow> label \<Rightarrow> real \<Rightarrow> (real option, unit) line" where
  "mk_line i a b' v =
     \<lparr>index = i, bus0 = a, bus1 = b',
      b_col = Some v, b_pu = Some v, cables = Some 3, capital_cost = Some v, frequency = Some 50,
      g_col = Some 0, g_pu = Some 0, geom = (), length_col = Some v, num_parallel = Some 1,
      r_col = Some v, r_pu = Some v, s_nom = Some 100, s_nom_extendable = False,
      s_nom_max = Some 100, s_nom_min = Some 0, s_nom_opt = Some 0, scn_name = ''Status Quo'',
      sub_network = '''', terrain_factor = Some 1, topo = (), type_col = '''',
      v_ang_max = Some 1, v_ang_min = Some 0, x_col = Some v, x_pu = Some v\<rparr>"

definition net_par :: "(unit, (real option, unit) line, unit, unit, unit, int, real option) network" where
  "net_par = \<lparr>buses = [], lines = [mk_line ''9'' ''2'' ''1'' 2, mk_line ''10'' ''1'' ''2'' 2,
       mk_line ''11'' ''2'' ''3'' 4],
     transformers = [], generators = [], loads = [], carriers = [], snapshots = [],
     loads_t_p_set = [], generators_t_p_set = [], generators_t_p = []\<rparr>"





text \<open>One line and one transformer, with a power-flow result for one snapshot.\<close>

definition net_pf ::
  "(unit, (real option, unit) eline, real option transformer, unit, unit, int, real option)
     pf_network" where
  "net_pf = \<lparr>buses = [],
     lines = [\<lparr>index = ''1'', bus0 = ''1'', bus1 = ''2'',
        b_col = Some 0, b_pu = Some 0, cables = Some 3, capital_cost = Some 0,
        frequency = Some 50, g_col = Some 0, g_pu = Some 0, geom = (), length_col = Some 10,
        num_parallel = Some 1, r_col = Some 2, r_pu = Some 0, s_nom = Some 100,
        s_nom_extendable = False, s_nom_max = Some 100, s_nom_min = Some 0, s_nom_opt = Some 0,
        scn_name = ''Status Quo'', sub_network = '''', terrain_factor = Some 1, topo = (),
        type_col = '''', v_ang_max = Some 1, v_ang_min = Some 0, x_col = Some 1, x_pu = Some 0,
        line_v_nom = Some 110\<rparr>],
     transformers = [\<lparr>index = ''7'', bus0 = ''2'', bus1 = ''3'', trafo_s_nom = Some 1000\<rparr>],
     generators = [], loads = [], carriers = [], snapshots = [0],
     loads_t_p_set = [], generators_t_p_set = [], generators_t_p = [],
     lines_t_p0 = [(''1'', [Some 3])], lines_t_q0 = [(''1'', [Some 4])], lines_t_losses = []\<rparr>"

section \<open>Facts about masks\<close>

lemma boolean_index_isin:
  "boolean_index df (isin (map f df) vals) = filter (\<lambda>r. f r \<in> set vals) df"
  by (induction df) (simp_all add: boolean_index_def isin_def)

lemma boolean_index_map:
  "boolean_index df (map p df) = filter p df"
  by (induction df) (simp_all add: boolean_index_def)

lemma mask_or_map: "mask_or (map p xs) (map q xs) = map (\<lambda>x. p x \<or> q x) xs"
  by (induction xs) (simp_all add: mask_or_def)

lemma mask_and_map: "mask_and (map p xs) (map q xs) = map (\<lambda>x. p x \<and> q x) xs"
  by (induction xs) (simp_all add: mask_and_def)

lemma isin_map: "isin (map f xs) vals = map (\<lambda>x. f x \<in> set vals) xs"
  by (simp add: isin_def)

section \<open>Filtering buses by voltage level\<close>

text \<open>
  Claim C5. For every network and every list of voltage levels, \<^verbatim>\<open>buses_of_vlvl\<close>
  returns exactly the index labels of the buses whose \<^verbatim>\<open>v_nom\<close> is a member of the
  list, and no others: the result is the list of those labels, in table order, one per
  such bus.
\<close>

theorem buses_of_vlvl_exact:
  "fst (buses_of_vlvl network voltage_level) =
     [index b. b \<leftarrow> buses network, v_nom b \<in> set voltage_level]"
proof -
  have "[index b. b \<leftarrow> bs, v_nom b \<in> set voltage_level] =
        map index (filter (\<lambda>b. v_nom b \<in> set voltage_level) bs)" for bs :: "('a, 'b) bus_scheme list"
    by (induction bs) simp_all
  then show ?thesis
    by (simp add: buses_of_vlvl_def Let_def boolean_index_isin)
qed

section \<open>The results of the other queries\<close>

lemma buses_grid_linked_result:
  "fst (buses_grid_linked network voltage_level) =
     map index (filter (\<lambda>b. (index b \<in> set (map bus0 (lines network)) \<or>
                              index b \<in> set (map bus1 (lines network))) \<and>
                             v_nom b \<in> set voltage_level) (buses network))"
  by (simp add: buses_grid_linked_def Let_def isin_map mask_or_map mask_and_map
      boolean_index_map del: set_map)

lemma connected_grid_lines_result:
  "fst (connected_grid_lines network busids) =
     filter (\<lambda>l. bus1 l \<in> set busids \<or> bus0 l \<in> set busids) (lines network)"
  by (simp add: connected_grid_lines_def Let_def isin_map mask_or_map boolean_index_map)

lemma connected_transformer_result:
  "fst (connected_transformer network busids) =
     filter (\<lambda>t. bus0 t \<in> set busids) (transformers network)"
  by (simp add: connected_transformer_def Let_def isin_map boolean_index_map)

section \<open>The queries leave the network as it is\<close>

text \<open>
  Claim C7. The query functions \<^verbatim>\<open>buses_of_vlvl\<close>, \<^verbatim>\<open>buses_grid_linked\<close>,
  \<^verbatim>\<open>connected_grid_lines\<close> and \<^verbatim>\<open>connected_transformer\<close> only read the network: for
  every network and argument, the network after the call is the network before it, so
  each of the tables buses, lines, transformers, generators and loads is unchanged.
\<close>

theorem queries_do_not_mutate:
  "snd (buses_of_vlvl n1 voltage_level) = n1 \<and>
   snd (buses_grid_linked n2 voltage_level') = n2 \<and>
   snd (connected_grid_lines n3 busids) = n3 \<and>
   snd (connected_transformer n4 busids') = n4"
  by (simp add: buses_of_vlvl_def buses_grid_linked_def connected_grid_lines_def
      connected_transformer_def Let_def)

section \<open>The windows of the linear OPF loop\<close>












section \<open>The network returned by the power flow\<close>

text \<open>
  Claim C10. \<^verbatim>\<open>pf_post_lopf\<close> returns the very network object it was passed, not a copy:
  the reference returned is the reference given, and the object at that reference is the
  caller's network with \<^verbatim>\<open>generators_t.p_set\<close> overwritten by \<^verbatim>\<open>generators_t.p\<close> and then
  run through the power flow; no other object of the heap changes. The column labels of
  \<^verbatim>\<open>generators_t.p_set\<close> are taken to be the generator index or not to repeat, as PyPSA
  keeps them: pandas raises in the reindexing otherwise.
\<close>

theorem pf_post_lopf_same_object:
  assumes "map fst (generators_t_p_set (heap network)) = map index (generators (heap network))
           \<or> distinct (map fst (generators_t_p_set (heap network)))"
  shows "\<exists>heap'. pf_post_lopf fl pf heap network scenario = Inr (network, heap') \<and>
           heap' network =
             pf ((heap network)\<lparr>generators_t_p_set := generators_t_p (heap network)\<rparr>)
                (timeindex scenario) True \<and>
           (\<forall>r. r \<noteq> network \<longrightarrow> heap' r = heap r)"
  using assms by (auto simp add: pf_post_lopf_def reindex_columns_def Let_def)

theorem pf_post_lopf_same_object_witness:
  "\<exists>heap'. pf_post_lopf exact pf_skip (\<lambda>r. net_g) 7 \<lparr>timeindex = ()\<rparr> = Inr (7, heap') \<and>
     generators_t_p_set (heap' 7) = [(''1'', [Some 5])] \<and> heap' 8 = net_g"
  using pf_post_lopf_same_object [of "\<lambda>r. net_g" 7 exact pf_skip "\<lparr>timeindex = ()\<rparr>"]
  by (simp add: net_g_def pf_skip_def) force

section \<open>Printing and reading integers\<close>

lemma nat_below_10:
  assumes "d < (10::nat)"
  obtains "d = 0" | "d = 1" | "d = 2" | "d = 3" | "d = 4" | "d = 5" | "d = 6"
    | "d = 7" | "d = 8" | "d = 9"
  using assms by (auto simp: numeral_eq_Suc less_Suc_eq)

lemma digit_val_digit_char: "d < 10 \<Longrightarrow> digit_val (digit_char d) = Some d"
  by (erule nat_below_10) (simp_all add: digit_val_def digit_char_def)

lemma digit_char_plain:
  "d < 10 \<Longrightarrow> digit_char d \<noteq> CHR ''_'' \<and> digit_char d \<noteq> CHR ''-'' \<and>
     digit_char d \<noteq> CHR ''+'' \<and> \<not> is_space (digit_char d)"
  by (erule nat_below_10) (simp_all add: digit_char_def is_space_def)

lemma digit_not_underscore: "digit_val c = Some v \<Longrightarrow> c \<noteq> CHR ''_''"
  by (auto simp: digit_val_def split: if_splits)

lemma digits_val_plain:
  "\<forall>c \<in> set ds. digit_val c \<noteq> None \<Longrightarrow> digits_val ds acc = Some (plain_val ds acc)"
proof (induction ds acc rule: digits_val.induct)
  case (1 acc)
  show ?case by (simp add: plain_val_def)
next
  case (2 c acc)
  then show ?case by (auto simp: plain_val_def)
next
  case (3 c d cs acc)
  from "3.prems" obtain v where v: "digit_val c = Some v" by auto
  then have nu: "c \<noteq> CHR ''_''" by (rule digit_not_underscore)
  have "digits_val (d # cs) (10 * acc + v) = Some (plain_val (d # cs) (10 * acc + v))"
    using "3.IH"(2) [OF nu v] "3.prems" by simp
  then show ?case using v nu by (simp add: plain_val_def)
qed

lemma str_nat_digits: "\<forall>c \<in> set (str_nat n). \<exists>d<10. c = digit_char d"
proof (induction n rule: str_nat.induct)
  case (1 n)
  show ?case
  proof (cases "n < 10")
    case True
    then show ?thesis by (subst str_nat.simps) auto
  next
    case False
    have "\<exists>d<10. digit_char (n mod 10) = digit_char d"
      by (rule exI [of _ "n mod 10"]) simp
    with False "1.IH" show ?thesis by (subst str_nat.simps) auto
  qed
qed

lemma str_nat_nonempty: "str_nat n \<noteq> []"
  by (subst str_nat.simps) simp

lemma str_nat_digit_vals: "\<forall>c \<in> set (str_nat n). digit_val c \<noteq> None"
  using str_nat_digits [of n] digit_val_digit_char by fastforce

lemma plain_val_str_nat: "plain_val (str_nat n) 0 = n"
proof (induction n rule: str_nat.induct)
  case (1 n)
  show ?case
  proof (cases "n < 10")
    case True
    then show ?thesis
      by (subst str_nat.simps) (simp add: plain_val_def digit_val_digit_char)
  next
    case False
    have "plain_val (str_nat (n div 10) @ [digit_char (n mod 10)]) 0 =
          10 * plain_val (str_nat (n div 10)) 0 + n mod 10"
      by (simp add: plain_val_def digit_val_digit_char)
    with False "1.IH" show ?thesis by (subst str_nat.simps) simp
  qed
qed

lemma unsigned_val_str_nat: "unsigned_val (str_nat n) = Some n"
proof -
  obtain c cs where s: "str_nat n = c # cs"
    using str_nat_nonempty [of n] by (cases "str_nat n") auto
  have all: "\<forall>c \<in> set (c # cs). digit_val c \<noteq> None"
    using str_nat_digit_vals [of n] s by simp
  then obtain v where v: "digit_val c = Some v" by auto
  have "digits_val cs v = Some (plain_val cs v)"
    using all by (intro digits_val_plain) simp
  moreover have "plain_val (c # cs) 0 = plain_val cs v"
    using v by (simp add: plain_val_def)
  ultimately show ?thesis
    using s v plain_val_str_nat [of n] by (simp add: unsigned_val_def)
qed

lemma strip_id:
  assumes "s \<noteq> []" "\<not> is_space (hd s)" "\<not> is_space (last s)"
  shows "strip s = s"
proof -
  have "dropWhile is_space s = s" using assms by (cases s) auto
  moreover have "dropWhile is_space (rev s) = rev s"
    using assms by (cases "rev s") (auto simp: last_rev [symmetric] hd_rev simp del: last_rev)
  ultimately show ?thesis by (simp add: strip_def)
qed

lemma str_nat_hd: "\<exists>d<10. hd (str_nat n) = digit_char d"
  using str_nat_digits [of n] str_nat_nonempty [of n] by (cases "str_nat n") auto

lemma str_nat_last: "\<exists>d<10. last (str_nat n) = digit_char d"
  using str_nat_digits [of n] str_nat_nonempty [of n] last_in_set by blast

lemma py_int_str: "py_int (str i) = Inr i"
proof (cases "i < 0")
  case True
  let ?s = "CHR ''-'' # str_nat (nat (- i))"
  have "\<not> is_space (last ?s)"
    using str_nat_last [of "nat (- i)"] str_nat_nonempty [of "nat (- i)"] digit_char_plain by auto
  moreover have "\<not> is_space (hd ?s)" by (simp add: is_space_def)
  ultimately have "strip ?s = ?s" by (intro strip_id) simp_all
  then show ?thesis
    using True by (simp add: py_int_def str_def unsigned_val_str_nat)
next
  case False
  let ?s = "str_nat (nat i)"
  obtain c cs where s: "?s = c # cs"
    using str_nat_nonempty [of "nat i"] by (cases ?s) auto
  obtain d where d: "d < 10" "c = digit_char d"
    using str_nat_hd [of "nat i"] s by auto
  have "\<not> is_space (last ?s)" "\<not> is_space (hd ?s)"
    using str_nat_last [of "nat i"] str_nat_hd [of "nat i"] digit_char_plain by auto
  then have "strip ?s = ?s" using str_nat_nonempty by (intro strip_id) simp_all
  moreover have "unsigned_val (c # cs) = Some (nat i)"
    using unsigned_val_str_nat [of "nat i"] s by simp
  ultimately show ?thesis
    using False s d digit_char_plain [of d] by (simp add: py_int_def str_def)
qed

lemma np_int64_str: "int64 i \<Longrightarrow> np_int64 (str i) = Inr i"
  by (simp add: np_int64_def py_int_str)

lemma np_int64_overflow: "\<not> int64 i \<Longrightarrow> np_int64 (str i) = Inl OverflowError"
  by (simp add: np_int64_def py_int_str)

lemma np_int64_py_int: "np_int64 s = Inr i \<Longrightarrow> py_int s = Inr i \<and> int64 i"
  by (auto simp: np_int64_def split: sum.splits if_splits)

lemma wrap64_id: "int64 i \<Longrightarrow> wrap64 i = i"
  by (simp add: wrap64_def int64_def)

lemma wrap64_less: "wrap64 i < 2 ^ 63"
proof -
  have "(i + 2 ^ 63) mod 2 ^ 64 < (2 ^ 64 :: int)" by (rule pos_mod_bound) simp
  then show ?thesis by (simp add: wrap64_def)
qed

lemma list_all2_left: "list_all2 R xs ys \<Longrightarrow> x \<in> set xs \<Longrightarrow> \<exists>y \<in> set ys. R x y"
  by (induction xs ys rule: list_all2_induct) auto

lemma list_all2_right: "list_all2 R xs ys \<Longrightarrow> y \<in> set ys \<Longrightarrow> \<exists>x \<in> set xs. R x y"
  by (induction xs ys rule: list_all2_induct) auto

lemma astype_int_str: "\<forall>i \<in> set ids. int64 i \<Longrightarrow> astype_int (map str ids) = Inr ids"
  by (induction ids) (simp_all add: np_int64_str)

lemma astype_int_overflow: "\<not> (\<forall>i \<in> set ids. int64 i) \<Longrightarrow> \<exists>e. astype_int (map str ids) = Inl e"
proof (induction ids)
  case Nil
  then show ?case by simp
next
  case (Cons i ids)
  show ?case
  proof (cases "int64 i")
    case True
    with Cons obtain e where "astype_int (map str ids) = Inl e" by auto
    with True show ?thesis by (simp add: np_int64_str)
  next
    case False
    then show ?thesis by (simp add: np_int64_overflow)
  qed
qed

lemma astype_int_labels:
  "astype_int ls = Inr ids \<Longrightarrow> list_all2 (\<lambda>s i. np_int64 s = Inr i) ls ids"
proof (induction ls arbitrary: ids)
  case Nil
  then show ?case by simp
next
  case (Cons s ls)
  then show ?case by (auto split: sum.splits)
qed

lemma astype_int_range: "astype_int ls = Inr ids \<Longrightarrow> \<forall>i \<in> set ids. int64 i"
proof
  fix i
  assume "astype_int ls = Inr ids" "i \<in> set ids"
  then obtain s where "np_int64 s = Inr i"
    using list_all2_right [OF astype_int_labels] by blast
  then show "int64 i" by (simp add: np_int64_py_int)
qed

lemma index_max_Max: "ids \<noteq> [] \<Longrightarrow> index_max ids = Inr (Max (set ids))"
proof (cases ids)
  case Nil
  then show "ids \<noteq> [] \<Longrightarrow> ?thesis" by simp
next
  case (Cons y ys)
  have "fold max ys y = Max (set (y # ys))" by (rule Max.set_eq_fold [symmetric])
  with Cons show ?thesis by (simp add: index_max_def)
qed

text \<open>
  The new labels, when the greatest label and the number of buses stay within 64 bits.
\<close>

lemma load_shedding_index_labels:
  assumes ids: "astype_int (map index (generators network)) = Inr ids" and ne: "ids \<noteq> []"
    and bound: "Max (set ids) + int (length (buses network)) < 2 ^ 63"
  shows "load_shedding_index network =
           Inr (map (\<lambda>k. str (Max (set ids) + int k)) [0..<length (buses network)])"
proof -
  let ?m = "Max (set ids)"
  have "?m \<in> set ids" using ne by simp
  then have "int64 ?m" using astype_int_range [OF ids] by blast
  then have "int64 (?m + int (length (buses network)))"
    using bound by (simp add: int64_def)
  then have "wrap64 (?m + int (length (buses network))) = ?m + int (length (buses network))"
    by (rule wrap64_id)
  then show ?thesis
    using ids ne by (simp add: load_shedding_index_def index_max_Max py_range_def Let_def comp_def)
qed

text \<open>
  Beyond 64 bits the sum wraps around to a number below \<^verbatim>\<open>start\<close>, the range is empty, and
  the frame cannot be built.
\<close>

lemma load_shedding_index_wraps:
  assumes ids: "astype_int (map index (generators network)) = Inr ids" and ne: "ids \<noteq> []"
    and bound: "\<not> Max (set ids) + int (length (buses network)) < 2 ^ 63"
    and nb: "buses network \<noteq> []"
  shows "\<exists>new_labels. load_shedding_index network = Inr new_labels \<and>
           length new_labels < length (buses network)"
proof -
  let ?m = "Max (set ids)"
  let ?n = "length (buses network)"
  let ?e = "wrap64 (?m + int ?n)"
  have "?e < 2 ^ 63" by (rule wrap64_less)
  with bound have "?e - ?m < int ?n" by simp
  moreover have "0 < ?n" using nb by simp
  ultimately have "nat (?e - ?m) < ?n" by linarith
  then show ?thesis
    using ids ne by (simp add: load_shedding_index_def index_max_Max py_range_def Let_def)
qed


section \<open>The labels of the load-shedding generators\<close>

lemma load_shedding_frame_add_carrier:
  "load_shedding_frame fl (network_add_carrier network name) kwargs =
   load_shedding_frame fl network kwargs"
proof -
  let ?n = "network_add_carrier network name"
  have eqs: "generators ?n = generators network" "buses ?n = buses network"
    "loads_t_p_set ?n = loads_t_p_set network"
    by (simp_all add: network_add_carrier_def)
  show ?thesis
    unfolding load_shedding_frame_def load_shedding_index_def eqs by (rule refl)
qed

lemma generator_frame_index:
  "length bus_col = length index' \<Longrightarrow>
   \<exists>df. generator_frame mc pn car bus_col index' = Inr df \<and> map index df = index' \<and>
        map bus df = bus_col \<and>
        (\<forall>r \<in> set df. marginal_cost r = mc \<and> p_nom r = pn \<and> carrier r = car)"
proof -
  assume len: "length bus_col = length index'"
  let ?df = "map (\<lambda>(i, b). \<lparr>index = i, marginal_cost = mc, p_nom = pn, carrier = car, bus = b\<rparr>)
                  (zip index' bus_col)"
  have "map index ?df = map fst (zip index' bus_col)" by (simp add: case_prod_unfold)
  then have i: "map index ?df = index'" using len by simp
  have "map bus ?df = map snd (zip index' bus_col)" by (simp add: case_prod_unfold)
  then have b: "map bus ?df = bus_col" using len by simp
  have r: "\<forall>r \<in> set ?df. marginal_cost r = mc \<and> p_nom r = pn \<and> carrier r = car" by auto
  show ?thesis using len i b r by (simp add: generator_frame_def)
qed

lemma import_refuses_collision:
  assumes "\<not> distinct (map index (generators network) @ map index dataframe)"
  shows "import_components_from_dataframe defaults network dataframe = network"
  using assms by (simp add: import_components_from_dataframe_def Let_def comp_def)

lemma import_accepts:
  assumes "distinct (map index (generators network) @ map index dataframe)"
  shows "import_components_from_dataframe defaults network dataframe =
         network\<lparr>generators := generators network @
            map (\<lambda>r. \<lparr>index = index r, marginal_cost = marginal_cost r, p_nom = p_nom r,
                       carrier = carrier r, bus = bus r, \<dots> = defaults\<rparr>) dataframe\<rparr>"
  using assms by (simp add: import_components_from_dataframe_def Let_def comp_def)

text \<open>
  The run of \<^verbatim>\<open>load_shedding\<close> on a network whose generator labels are read as the
  integers \<open>ids\<close>: the frame it builds, and the network it returns.
\<close>

lemma load_shedding_run:
  assumes ids: "astype_int (map index (generators network)) = Inr ids" and ne: "ids \<noteq> []"
    and bound: "Max (set ids) + int (length (buses network)) < 2 ^ 63"
  shows "\<exists>df :: 'f generator list.
           load_shedding_frame fl network kwargs = Inr df \<and>
           map index df =
             map (\<lambda>k. str (Max (set ids) + int k)) [0..<length (buses network)] \<and>
           map bus df = map index (buses network) \<and>
           (\<forall>r \<in> set df.
               carrier r = ''load shedding'' \<and>
               marginal_cost r = kwargs_get kwargs ''marginal_cost'' (py_float fl 10000) \<and>
               p_nom r = kwargs_get kwargs ''p_nom''
                           (series_max fl (df_max fl (loads_t_p_set network)))) \<and>
           load_shedding fl defaults network kwargs =
             Inr ((network_add_carrier network ''load'')\<lparr>generators :=
                    (if distinct (map index (generators network) @ map index df)
                     then generators network @
                          map (\<lambda>r. \<lparr>index = index r, marginal_cost = marginal_cost r,
                                     p_nom = p_nom r, carrier = carrier r, bus = bus r,
                                     \<dots> = defaults\<rparr>) df
                     else generators network)\<rparr>)"
proof -
  let ?m = "Max (set ids)"
  let ?new = "map (\<lambda>k. str (?m + int k)) [0..<length (buses network)]"
  let ?network' = "network_add_carrier network ''load''"
  have idx: "load_shedding_index network = Inr ?new"
    using ids ne bound by (rule load_shedding_index_labels)
  let ?mc = "kwargs_get kwargs ''marginal_cost'' (py_float fl 10000)"
  let ?pn = "kwargs_get kwargs ''p_nom'' (series_max fl (df_max fl (loads_t_p_set network)))"
  have "length (map index (buses network)) = length ?new" by simp
  from generator_frame_index [OF this, of ?mc ?pn "''load shedding''"]
  obtain df where df: "generator_frame ?mc ?pn ''load shedding''
        (map index (buses network)) ?new = Inr df"
    and labels: "map index df = ?new"
    and bus: "map bus df = map index (buses network)"
    and rows: "\<forall>r \<in> set df. marginal_cost r = ?mc \<and> p_nom r = ?pn \<and> carrier r = ''load shedding''"
    by blast
  have frame: "load_shedding_frame fl network kwargs = Inr df"
    using idx df by (simp add: load_shedding_frame_def Let_def)
  have run: "load_shedding fl defaults network kwargs =
             Inr (import_components_from_dataframe defaults ?network' df)"
    using frame by (simp add: load_shedding_def Let_def load_shedding_frame_add_carrier)
  have g: "generators ?network' = generators network"
    by (simp add: network_add_carrier_def)
  let ?rows = "map (\<lambda>r. \<lparr>index = index r, marginal_cost = marginal_cost r, p_nom = p_nom r,
                        carrier = carrier r, bus = bus r, \<dots> = defaults\<rparr>) df"
  have imp: "import_components_from_dataframe defaults ?network' df =
             ?network'\<lparr>generators :=
                (if distinct (map index (generators network) @ map index df)
                 then generators network @ ?rows else generators network)\<rparr>"
  proof (cases "distinct (map index (generators network) @ map index df)")
    case True
    then have "distinct (map index (generators ?network') @ map index df)" by (simp only: g)
    from import_accepts [OF this, of defaults] True show ?thesis by (simp only: g if_True)
  next
    case False
    then have "\<not> distinct (map index (generators ?network') @ map index df)"
      unfolding g by assumption
    from import_refuses_collision [OF this, of defaults]
    have e1: "import_components_from_dataframe defaults ?network' df = ?network'" .
    have e2: "(if distinct (map index (generators network) @ map index df)
               then generators network @ ?rows else generators network) = generators ?network'"
      unfolding g by (rule if_not_P [OF False])
    have e3: "?network'\<lparr>generators := generators ?network'\<rparr> = ?network'" by simp
    show ?thesis unfolding e1 e2 e3 by (rule refl)
  qed
  from rows have rows': "\<forall>r \<in> set df. carrier r = ''load shedding'' \<and>
      marginal_cost r = ?mc \<and> p_nom r = ?pn" by simp
  have result: "load_shedding fl defaults network kwargs =
             Inr (?network'\<lparr>generators :=
                (if distinct (map index (generators network) @ map index df)
                 then generators network @ ?rows else generators network)\<rparr>)"
    using run imp by (simp only:)
  show ?thesis
    apply (rule exI [of _ df])
    apply (intro conjI frame labels bus rows' result)
    done
qed

lemma first_label:
  assumes labels: "map index df = map (\<lambda>k. str (m + int k)) [0..<n]" and n: "0 < n"
  shows "df \<noteq> [] \<and> index (hd df) = str m"
proof -
  from labels n have ne: "df \<noteq> []" by auto
  have "hd (map index df) = hd (map (\<lambda>k. str (m + int k)) [0..<n])" using labels by simp
  moreover have "hd (map (\<lambda>k. str (m + int k)) [0..<n]) = str m"
    using n by (simp add: hd_map upt_conv_Cons)
  ultimately show ?thesis using ne by (simp add: hd_map)
qed

lemma net_ls_labels: "map index (generators net_ls) = map str [1]"
  by (simp add: net_ls_def str_def str_nat.simps digit_char_def)

lemma net_07_ids: "astype_int (map index (generators net_07)) = Inr [7]"
  by (simp add: net_07_def np_int64_def py_int_def strip_def is_space_def unsigned_val_def
      digit_val_def int64_def)

lemma str_7: "str 7 = ''7''"
  by (simp add: str_def str_nat.simps digit_char_def)

text \<open>
  Claim C8, as it reads. A generator label that \<^verbatim>\<open>int\<close> reads as an integer need not be
  the numeral that \<^verbatim>\<open>str\<close> prints: \<^verbatim>\<open>07\<close> is a decimal-integer string of value 7. On a
  network with this one generator and one bus the new label is \<^verbatim>\<open>7\<close>, which is the label
  of no generator of the network; the first new label does not coincide with an existing
  one, and PyPSA appends the new generator.
\<close>

theorem load_shedding_label_counterexample:
  "py_int ''07'' = Inr 7 \<and>
   map index (generators net_07) = [''07''] \<and> length (buses net_07) = 1 \<and>
   load_shedding_index net_07 = Inr [''7''] \<and>
   ''7'' \<notin> set (map index (generators net_07)) \<and>
   (\<exists>network'. load_shedding exact () net_07 Map.empty = Inr network' \<and>
      map index (generators network') = [''07'', ''7''])"
proof -
  have p: "py_int ''07'' = Inr 7"
    by (simp add: py_int_def strip_def is_space_def unsigned_val_def digit_val_def)
  have b: "Max (set [7::int]) + int (length (buses net_07)) < 2 ^ 63"
    by (simp add: net_07_def)
  have ne: "[7::int] \<noteq> []" by simp
  from load_shedding_index_labels [OF net_07_ids ne b]
  have i: "load_shedding_index net_07 = Inr [''7'']"
    by (simp add: net_07_def str_7)
  from load_shedding_run [OF net_07_ids ne b, of exact Map.empty "()"]
  obtain df :: "real option generator list" where
    labels: "map index df =
       map (\<lambda>k. str (Max (set [7]) + int k)) [0..<length (buses net_07)]"
    and run: "load_shedding exact () net_07 Map.empty =
      Inr ((network_add_carrier net_07 ''load'')\<lparr>generators :=
             (if distinct (map index (generators net_07) @ map index df)
              then generators net_07 @
                   map (\<lambda>r. \<lparr>index = index r, marginal_cost = marginal_cost r,
                              p_nom = p_nom r, carrier = carrier r, bus = bus r,
                              \<dots> = ()\<rparr>) df
              else generators net_07)\<rparr>)"
    by blast
  from labels have df: "map index df = [''7'']" by (simp add: net_07_def str_7)
  have g: "map index (generators net_07) = [''07'']" by (simp add: net_07_def)
  have "\<exists>network'. load_shedding exact () net_07 Map.empty = Inr network' \<and>
      map index (generators network') = [''07'', ''7'']"
    unfolding run using df g by (simp add: comp_def)
  with p i g show ?thesis by (simp add: net_07_def)
qed

text \<open>
  Claim C8, amended. Let \<^verbatim>\<open>astype(int)\<close> read the generator labels as the 64-bit integers
  \<open>ids\<close>, at least one, with the greatest \<open>m\<close>, let \<open>n\<close> be the number of buses, and let
  \<open>m + n\<close> be below \<open>2^63\<close>. Then \<^verbatim>\<open>load_shedding\<close> builds a frame of \<open>n\<close> generators with
  the labels \<open>str m\<close>, \<open>str (m + 1)\<close>, ..., \<open>str (m + n - 1)\<close>, one on each bus, and returns
  the network with the carrier \<^verbatim>\<open>load\<close> and with the generator table that PyPSA makes of
  the frame: the old rows followed by the rows of the frame when no label occurs twice,
  and the old rows alone when one does. When there is a bus, the first new label is
  \<open>str m\<close>; a generator of the network has a label of this value \<open>m\<close>, and when the labels
  of the network are the numerals that \<^verbatim>\<open>str\<close> prints, the first new label is the label
  of a generator that exists already.
\<close>

theorem load_shedding_new_labels:
  assumes "astype_int (map index (generators network)) = Inr ids" and "ids \<noteq> []"
    and "Max (set ids) + int (length (buses network)) < 2 ^ 63"
  shows "\<exists>df :: 'f generator list.
           load_shedding_frame fl network kwargs = Inr df \<and>
           map index df =
             map (\<lambda>k. str (Max (set ids) + int k)) [0..<length (buses network)] \<and>
           map bus df = map index (buses network) \<and>
           load_shedding fl defaults network kwargs =
             Inr ((network_add_carrier network ''load'')\<lparr>generators :=
                    (if distinct (map index (generators network) @ map index df)
                     then generators network @
                          map (\<lambda>r. \<lparr>index = index r, marginal_cost = marginal_cost r,
                                     p_nom = p_nom r, carrier = carrier r, bus = bus r,
                                     \<dots> = defaults\<rparr>) df
                     else generators network)\<rparr>) \<and>
           (buses network \<noteq> [] \<longrightarrow>
              index (hd df) = str (Max (set ids)) \<and>
              (\<exists>g \<in> set (generators network). np_int64 (index g) = Inr (Max (set ids))) \<and>
              (map index (generators network) = map str ids \<longrightarrow>
                 index (hd df) \<in> set (map index (generators network))))"
proof -
  let ?m = "Max (set ids)"
  from load_shedding_run [OF assms, of fl kwargs defaults]
  obtain df :: "'f generator list" where
    frame: "load_shedding_frame fl network kwargs = Inr df"
    and labels: "map index df = map (\<lambda>k. str (?m + int k)) [0..<length (buses network)]"
    and bus: "map bus df = map index (buses network)"
    and run: "load_shedding fl defaults network kwargs =
             Inr ((network_add_carrier network ''load'')\<lparr>generators :=
                    (if distinct (map index (generators network) @ map index df)
                     then generators network @
                          map (\<lambda>r. \<lparr>index = index r, marginal_cost = marginal_cost r,
                                     p_nom = p_nom r, carrier = carrier r, bus = bus r,
                                     \<dots> = defaults\<rparr>) df
                     else generators network)\<rparr>)"
    by blast
  have first: "index (hd df) = str ?m \<and>
      (\<exists>g \<in> set (generators network). np_int64 (index g) = Inr ?m) \<and>
      (map index (generators network) = map str ids \<longrightarrow>
         index (hd df) \<in> set (map index (generators network)))"
    if nb: "buses network \<noteq> []"
  proof -
    from nb have "0 < length (buses network)" by simp
    from first_label [OF labels this] have h: "index (hd df) = str ?m" by simp
    have m: "?m \<in> set ids" using assms(2) by simp
    from list_all2_right [OF astype_int_labels [OF assms(1)] m]
    have g: "\<exists>g \<in> set (generators network). np_int64 (index g) = Inr ?m" by auto
    have "str ?m \<in> set (map str ids)" using m by simp
    with h g show ?thesis by simp
  qed
  show ?thesis
    apply (rule exI [of _ df])
    apply (intro conjI impI frame labels bus run)
    using first apply blast
    using first apply blast
    using first apply blast
    done
qed

theorem load_shedding_new_labels_witness:
  "astype_int (map index (generators net_07)) = Inr [7] \<and>
   (\<exists>df. load_shedding_frame exact net_07 Map.empty = Inr df \<and>
      map index df = [''7''] \<and> map bus df = [''b1''] \<and>
      load_shedding exact () net_07 Map.empty =
        Inr (net_07\<lparr>carriers := [''load''],
               generators := generators net_07 @
                 map (\<lambda>r. \<lparr>index = index r, marginal_cost = marginal_cost r,
                            p_nom = p_nom r, carrier = carrier r, bus = bus r\<rparr>) df\<rparr>))"
proof -
  have b: "Max (set [7::int]) + int (length (buses net_07)) < 2 ^ 63"
    by (simp add: net_07_def)
  have ne: "[7::int] \<noteq> []" by simp
  from load_shedding_new_labels [OF net_07_ids ne b, of exact Map.empty "()"]
  obtain df :: "real option generator list" where
    frame: "load_shedding_frame exact net_07 Map.empty = Inr df"
    and labels: "map index df =
       map (\<lambda>k. str (Max (set [7]) + int k)) [0..<length (buses net_07)]"
    and bus: "map bus df = map index (buses net_07)"
    and run: "load_shedding exact () net_07 Map.empty =
      Inr ((network_add_carrier net_07 ''load'')\<lparr>generators :=
             (if distinct (map index (generators net_07) @ map index df)
              then generators net_07 @
                   map (\<lambda>r. \<lparr>index = index r, marginal_cost = marginal_cost r,
                              p_nom = p_nom r, carrier = carrier r, bus = bus r,
                              \<dots> = ()\<rparr>) df
              else generators net_07)\<rparr>)"
    by blast
  from labels have df: "map index df = [''7'']" by (simp add: net_07_def str_7)
  from bus have bus': "map bus df = [''b1'']" by (simp add: net_07_def)
  have g: "map index (generators net_07) = [''07'']"
    "network_add_carrier net_07 ''load'' = net_07\<lparr>carriers := [''load'']\<rparr>"
    by (simp_all add: net_07_def network_add_carrier_def)
  have run': "load_shedding exact () net_07 Map.empty =
        Inr (net_07\<lparr>carriers := [''load''],
               generators := generators net_07 @
                 map (\<lambda>r. \<lparr>index = index r, marginal_cost = marginal_cost r,
                            p_nom = p_nom r, carrier = carrier r, bus = bus r\<rparr>) df\<rparr>)"
    unfolding run g df by simp
  show ?thesis
    apply (rule conjI [OF net_07_ids])
    apply (rule exI [of _ df])
    apply (intro conjI frame df bus' run')
    done
qed

section \<open>What load shedding adds\<close>

text \<open>
  Claim C4 says that after \<^verbatim>\<open>load_shedding\<close> the generator table has one new row for
  each bus, with carrier \<^verbatim>\<open>load shedding\<close> and the marginal cost and capacity given or
  defaulted, and that the rows it had are still there. The code numbers the new rows from
  the greatest generator label itself, not from the label after it, so the first new
  label is taken; PyPSA refuses a frame that makes the index ambiguous, and nothing is
  added. For every network with integer generator labels and a bus: when the labels and
  the greatest of them plus the number of buses are 64-bit integers, the call returns
  and the only change is the carrier \<^verbatim>\<open>load\<close>; the generator table is as before, with no
  load-shedding generator in it. Beyond 64 bits the call raises, so whenever the call
  returns, the generator table is as before.
\<close>

theorem load_shedding_adds_no_generator:
  assumes "map index (generators network) = map str ids" and "ids \<noteq> []"
    and "buses network \<noteq> []"
  shows "((\<forall>i \<in> set ids. int64 i) \<and>
          Max (set ids) + int (length (buses network)) < 2 ^ 63 \<longrightarrow>
            load_shedding (fl :: ('f, 'y) floats_scheme) defaults network kwargs =
              Inr (network_add_carrier network ''load'')) \<and>
         (\<forall>network'. load_shedding fl defaults network kwargs = Inr network' \<longrightarrow>
            generators network' = generators network)"
proof -
  let ?network' = "network_add_carrier network ''load''"
  let ?m = "Max (set ids)"
  have g: "generators ?network' = generators network"
    by (simp add: network_add_carrier_def)
  have inside: "load_shedding fl defaults network kwargs = Inr ?network'"
    if range: "\<forall>i \<in> set ids. int64 i"
      and bound: "?m + int (length (buses network)) < 2 ^ 63"
  proof -
    have ids: "astype_int (map index (generators network)) = Inr ids"
      using assms(1) astype_int_str [OF range] by simp
    from load_shedding_run [OF ids assms(2) bound, of fl kwargs defaults]
    obtain df :: "'f generator list" where
      labels: "map index df = map (\<lambda>k. str (?m + int k)) [0..<length (buses network)]"
      and run: "load_shedding fl defaults network kwargs =
             Inr (?network'\<lparr>generators :=
                    (if distinct (map index (generators network) @ map index df)
                     then generators network @
                          map (\<lambda>r. \<lparr>index = index r, marginal_cost = marginal_cost r,
                                     p_nom = p_nom r, carrier = carrier r, bus = bus r,
                                     \<dots> = defaults\<rparr>) df
                     else generators network)\<rparr>)"
      by blast
    from assms(3) have "0 < length (buses network)" by simp
    from first_label [OF labels this] have h: "df \<noteq> []" "index (hd df) = str ?m" by simp_all
    have "?m \<in> set ids" using assms(2) by simp
    then have "str ?m \<in> set (map index (generators network))" using assms(1) by simp
    moreover have "str ?m \<in> set (map index df)" using h by (metis hd_in_set image_eqI list.set_map)
    ultimately have "\<not> distinct (map index (generators network) @ map index df)" by auto
    note run' = run [unfolded if_not_P [OF this]]
    have "?network'\<lparr>generators := generators network\<rparr> = ?network'"
      unfolding g [symmetric] by simp
    with run' show ?thesis by (simp only:)
  qed
  have outside: "\<exists>e. load_shedding fl defaults network kwargs = Inl e"
    if out: "\<not> ((\<forall>i \<in> set ids. int64 i) \<and> ?m + int (length (buses network)) < 2 ^ 63)"
  proof (cases "\<forall>i \<in> set ids. int64 i")
    case False
    from astype_int_overflow [OF this] assms(1)
    obtain e where "astype_int (map index (generators network)) = Inl e" by auto
    then have "load_shedding_frame fl network kwargs = Inl e"
      by (simp add: load_shedding_frame_def load_shedding_index_def Let_def)
    then show ?thesis
      by (simp add: load_shedding_def Let_def load_shedding_frame_add_carrier)
  next
    case True
    have ids: "astype_int (map index (generators network)) = Inr ids"
      using assms(1) astype_int_str [OF True] by simp
    from out True have "\<not> ?m + int (length (buses network)) < 2 ^ 63" by simp
    from load_shedding_index_wraps [OF ids assms(2) this assms(3)]
    obtain new_labels where "load_shedding_index network = Inr new_labels"
      "length new_labels < length (buses network)" by blast
    then have "load_shedding_frame fl network kwargs = Inl ValueError"
      by (simp add: load_shedding_frame_def generator_frame_def Let_def)
    then show ?thesis
      by (simp add: load_shedding_def Let_def load_shedding_frame_add_carrier)
  qed
  show ?thesis
  proof (intro conjI impI allI)
    assume "(\<forall>i \<in> set ids. int64 i) \<and> ?m + int (length (buses network)) < 2 ^ 63"
    then show "load_shedding fl defaults network kwargs = Inr ?network'"
      using inside by blast
  next
    fix network'
    assume r: "load_shedding fl defaults network kwargs = Inr network'"
    show "generators network' = generators network"
    proof (cases "(\<forall>i \<in> set ids. int64 i) \<and> ?m + int (length (buses network)) < 2 ^ 63")
      case True
      then have "load_shedding fl defaults network kwargs = Inr ?network'"
        using inside by blast
      with r g show ?thesis by simp
    next
      case False
      from outside [OF this] r show ?thesis by simp
    qed
  qed
qed

theorem load_shedding_adds_no_generator_witness:
  "load_shedding exact () net_ls Map.empty = Inr (net_ls\<lparr>carriers := [''load'']\<rparr>) \<and>
   generators (net_ls\<lparr>carriers := [''load'']\<rparr>) = generators net_ls \<and>
   length (buses net_ls) = 1"
  using load_shedding_adds_no_generator [of net_ls "[1]" exact "()" Map.empty] net_ls_labels
  by (simp add: network_add_carrier_def int64_def) (simp add: net_ls_def)


section \<open>Parallel lines\<close>

lemma py_int_9: "py_int ''9'' = Inr 9" "py_int ''10'' = Inr 10" "py_int ''1'' = Inr 1"
  "py_int ''2'' = Inr 2" "py_int ''3'' = Inr 3"
  by (simp_all add: py_int_def strip_def is_space_def unsigned_val_def digit_val_def)

lemma np_int64_9: "np_int64 ''9'' = Inr 9" "np_int64 ''10'' = Inr 10" "np_int64 ''1'' = Inr 1"
  "np_int64 ''2'' = Inr 2" "np_int64 ''3'' = Inr 3"
  by (simp_all add: np_int64_def py_int_9 int64_def)

lemma str_small: "str 1 = ''1''" "str 2 = ''2''" "str 3 = ''3''"
  by (simp_all add: str_def str_nat.simps digit_char_def)

lemma net_par_ordered:
  "order_all (lines net_par) =
     Inr [mk_line ''9'' ''1'' ''2'' 2, mk_line ''10'' ''1'' ''2'' 2, mk_line ''11'' ''2'' ''3'' 4]"
  by (simp add: net_par_def order_buses_def np_int64_9 str_small Let_def mk_line_def)

lemma net_par_groups:
  "groupby (\<lambda>line. (bus0 line, bus1 line))
     [mk_line ''9'' ''1'' ''2'' 2, mk_line ''10'' ''1'' ''2'' 2, mk_line ''11'' ''2'' ''3'' 4] =
   [((''1'', ''2''), [mk_line ''9'' ''1'' ''2'' 2, mk_line ''10'' ''1'' ''2'' 2]),
    ((''2'', ''3''), [mk_line ''11'' ''2'' ''3'' 4])]"
  by (simp add: groupby_def mk_line_def less_eq_prod_def less_prod_def)

lemma net_par_run:
  "\<exists>n'. group_parallel_lines exact net_par = Inr n' \<and>
     map index (lines n') = [''10'', ''11''] \<and>
     map r_col (lines n') = [Some 1, Some 4] \<and>
     map s_nom (lines n') = [Some 200, Some 100]"
  by (simp add: group_parallel_lines_def net_par_ordered net_par_groups Let_def)
    (simp add: agg_row_def mk_line_def least_def exact_def reciprocal_sum_def)

lemma list_all2_filter:
  assumes "list_all2 R xs ys" and "\<And>x y. R x y \<Longrightarrow> P x = Q y"
  shows "list_all2 R (filter P xs) (filter Q ys)"
  using assms by (induction xs ys rule: list_all2_induct) auto

lemma list_all2_map_eq:
  assumes "list_all2 R xs ys" and "\<And>x y. R x y \<Longrightarrow> f x = h y"
  shows "map f xs = map h ys"
  using assms by (induction xs ys rule: list_all2_induct) auto

lemma order_all_rel:
  "order_all ls = Inr old \<Longrightarrow> list_all2 (\<lambda>l0 l1. order_buses l0 = Inr l1) ls old"
proof (induction ls arbitrary: old)
  case Nil
  then show ?case by simp
next
  case (Cons l ls)
  then show ?case by (auto split: sum.splits)
qed

lemma order_all_returns:
  assumes "\<forall>l \<in> set ls. bus_pair l \<noteq> None"
  shows "\<exists>old. order_all ls = Inr old"
  using assms
proof (induction ls)
  case Nil
  show ?case by simp
next
  case (Cons l ls)
  then obtain old where "order_all ls = Inr old" by auto
  moreover from Cons.prems have "\<exists>l'. order_buses l = Inr l'"
    by (auto simp: bus_pair_def order_buses_def Let_def split: sum.splits)
  ultimately show ?case by auto
qed

lemma order_buses_fields:
  assumes "order_buses l0 = Inr l1"
  shows "\<exists>i j. bus_pair l0 = Some (i, j) \<and> i \<le> j \<and> l1 = l0\<lparr>bus0 := str i, bus1 := str j\<rparr>"
  using assms
  by (auto simp: bus_pair_def order_buses_def Let_def split: sum.splits)

lemma str_inj: "str i = str j \<Longrightarrow> i = j"
  by (metis py_int_str sum.inject(2))

lemma bus_pair_str:
  assumes "i \<le> j" "int64 i" "int64 j" "bus0 l = str i" "bus1 l = str j"
  shows "bus_pair l = Some (i, j)"
  using assms by (simp add: bus_pair_def np_int64_str)

lemma bus_pair_range: "bus_pair l = Some (i, j) \<Longrightarrow> int64 i \<and> int64 j"
  by (auto simp: bus_pair_def min_def max_def dest: np_int64_py_int split: sum.splits if_splits)

lemma least_Min: "xs \<noteq> [] \<Longrightarrow> least xs = Min (set xs)"
proof -
  assume "xs \<noteq> []"
  then obtain y ys where "xs = y # ys" by (cases xs) auto
  moreover have "fold min ys y = Min (set (y # ys))" by (rule Min.set_eq_fold [symmetric])
  ultimately show ?thesis by (simp add: least_def)
qed

lemma groupby_keys: "map fst (groupby key df) = sort (remdups (map key df))"
  by (simp add: groupby_def comp_def)

text \<open>The lines after the call, one per key of the ordered table.\<close>

lemma group_parallel_lines_lines:
  assumes "order_all (lines network) = Inr old"
  shows "\<exists>network'. group_parallel_lines fl network = Inr network' \<and>
           lines network' =
             map (\<lambda>k. agg_row fl (k, filter (\<lambda>row. (bus0 row, bus1 row) = k) old))
               (sort (remdups (map (\<lambda>row. (bus0 row, bus1 row)) old))) \<and>
           buses network' = buses network \<and> transformers network' = transformers network \<and>
           generators network' = generators network \<and> loads network' = loads network"
  using assms by (simp add: group_parallel_lines_def groupby_def Let_def comp_def)

lemma bus_pair_ordered: "bus_pair l = Some (i, j) \<Longrightarrow> i \<le> j"
  by (auto simp: bus_pair_def split: sum.splits)

lemma agg_row_bus_pair:
  "i \<le> j \<Longrightarrow> int64 i \<Longrightarrow> int64 j \<Longrightarrow>
   bus_pair (agg_row fl ((str i, str j), rows)) = Some (i, j)"
  by (rule bus_pair_str) (simp_all add: agg_row_def)

lemma ordered_keys:
  assumes "order_all ls = Inr old"
  shows "k \<in> set (map (\<lambda>row. (bus0 row, bus1 row)) old) \<longleftrightarrow>
         (\<exists>i j. k = (str i, str j) \<and> Some (i, j) \<in> bus_pair ` set ls)"
proof
  assume "k \<in> set (map (\<lambda>row. (bus0 row, bus1 row)) old)"
  then obtain l1 where l1: "l1 \<in> set old" "k = (bus0 l1, bus1 l1)" by auto
  then obtain l0 where l0: "l0 \<in> set ls" "order_buses l0 = Inr l1"
    using list_all2_right [OF order_all_rel [OF assms]] by blast
  from order_buses_fields [OF l0(2)] obtain i j where
    "bus_pair l0 = Some (i, j)" "l1 = l0\<lparr>bus0 := str i, bus1 := str j\<rparr>" by blast
  with l0(1) l1(2) show "\<exists>i j. k = (str i, str j) \<and> Some (i, j) \<in> bus_pair ` set ls"
    by (intro exI [of _ i] exI [of _ j]) force
next
  assume "\<exists>i j. k = (str i, str j) \<and> Some (i, j) \<in> bus_pair ` set ls"
  then obtain i j l0 where k: "k = (str i, str j)" and l0: "l0 \<in> set ls" "bus_pair l0 = Some (i, j)"
    by force
  then obtain l1 where l1: "l1 \<in> set old" "order_buses l0 = Inr l1"
    using list_all2_left [OF order_all_rel [OF assms]] by blast
  from order_buses_fields [OF l1(2)] l0(2) have "l1 = l0\<lparr>bus0 := str i, bus1 := str j\<rparr>" by auto
  then have "(bus0 l1, bus1 l1) = k" using k by simp
  with l1(1) show "k \<in> set (map (\<lambda>row. (bus0 row, bus1 row)) old)" by force
qed

lemma ordered_group:
  assumes "order_all ls = Inr old"
  shows "list_all2 (\<lambda>l0 l1. order_buses l0 = Inr l1)
           (filter (\<lambda>l0. bus_pair l0 = Some (i, j)) ls)
           (filter (\<lambda>row. (bus0 row, bus1 row) = (str i, str j)) old)"
proof (rule list_all2_filter [OF order_all_rel [OF assms]])
  fix l0 l1 :: "'a branch_scheme"
  assume "order_buses l0 = Inr l1"
  from order_buses_fields [OF this] obtain i' j' where
    "bus_pair l0 = Some (i', j')" "l1 = l0\<lparr>bus0 := str i', bus1 := str j'\<rparr>" by blast
  then show "(bus_pair l0 = Some (i, j)) = ((bus0 l1, bus1 l1) = (str i, str j))"
    by (auto dest: str_inj)
qed

lemma ordered_group_column:
  assumes ord: "order_all ls = Inr old"
    and inv: "\<And>l a b'. f (l\<lparr>bus0 := a, bus1 := b'\<rparr>) = f l"
  shows "map f (filter (\<lambda>row. (bus0 row, bus1 row) = (str i, str j)) old) =
         map f (filter (\<lambda>l0. bus_pair l0 = Some (i, j)) ls)"
proof (rule list_all2_map_eq [OF ordered_group [OF ord], symmetric])
  fix l0 l1 :: "'a branch_scheme"
  assume "order_buses l0 = Inr l1"
  from order_buses_fields [OF this] inv show "f l0 = f l1" by metis
qed

lemma grouped_line:
  assumes ord: "order_all (lines network) = Inr old"
    and run: "group_parallel_lines fl network = Inr network'"
    and l: "l \<in> set (lines network')"
  shows "\<exists>i j. i \<le> j \<and> int64 i \<and> int64 j \<and>
           Some (i, j) \<in> bus_pair ` set (lines network) \<and>
           l = agg_row fl ((str i, str j),
                 filter (\<lambda>row. (bus0 row, bus1 row) = (str i, str j)) old)"
proof -
  let ?keys = "map (\<lambda>row. (bus0 row, bus1 row)) old"
  from group_parallel_lines_lines [OF ord, of fl] run
  have "lines network' =
      map (\<lambda>k. agg_row fl (k, filter (\<lambda>row. (bus0 row, bus1 row) = k) old)) (sort (remdups ?keys))"
    by auto
  with l obtain k where k: "k \<in> set ?keys"
    and lk: "l = agg_row fl (k, filter (\<lambda>row. (bus0 row, bus1 row) = k) old)"
    by auto
  from k ordered_keys [OF ord, of k] obtain i j where
    ij: "k = (str i, str j)" "Some (i, j) \<in> bus_pair ` set (lines network)" by blast
  from ij(2) have "i \<le> j" by (auto dest: bus_pair_ordered [OF sym])
  moreover from ij(2) have "int64 i \<and> int64 j" by (auto dest: bus_pair_range [OF sym])
  ultimately show ?thesis using ij lk by blast
qed

lemma net_par_pairs:
  "map bus_pair (lines net_par) = [Some (1, 2), Some (1, 2), Some (2, 3)]"
  by (simp add: net_par_def mk_line_def bus_pair_def np_int64_9)

text \<open>
  Claim C9. After \<^verbatim>\<open>group_parallel_lines\<close> returns, every line of \<^verbatim>\<open>network.lines\<close> has
  \<open>int(bus0) \<le> int(bus1)\<close>: its two labels are the smaller and the larger bus number of a
  line of the table before the call, printed. And every line of the table before the call
  is rewritten in this way: its two bus labels are read as integers, and the table after
  the call has a line whose \<^verbatim>\<open>bus0\<close> is the smaller and whose \<^verbatim>\<open>bus1\<close> is the larger of
  the two, printed.
\<close>

theorem group_parallel_lines_ordered:
  assumes "group_parallel_lines fl network = Inr network'"
  shows "(\<forall>l \<in> set (lines network').
           \<exists>i j. py_int (bus0 l) = Inr i \<and> py_int (bus1 l) = Inr j \<and> i \<le> j \<and>
             (\<exists>l0 \<in> set (lines network). \<exists>i0 j0.
                 py_int (bus0 l0) = Inr i0 \<and> py_int (bus1 l0) = Inr j0 \<and>
                 bus0 l = str (min i0 j0) \<and> bus1 l = str (max i0 j0))) \<and>
         (\<forall>l0 \<in> set (lines network).
           \<exists>i0 j0. py_int (bus0 l0) = Inr i0 \<and> py_int (bus1 l0) = Inr j0 \<and>
             (\<exists>l \<in> set (lines network').
                 bus0 l = str (min i0 j0) \<and> bus1 l = str (max i0 j0)))"
proof (intro conjI ballI)
  fix l
  assume l: "l \<in> set (lines network')"
  from assms obtain old where ord: "order_all (lines network) = Inr old"
    by (auto simp: group_parallel_lines_def split: sum.splits)
  from grouped_line [OF ord assms l] obtain i j where
    ij: "i \<le> j" "Some (i, j) \<in> bus_pair ` set (lines network)"
    and b: "bus0 l = str i" "bus1 l = str j"
    by (auto simp: agg_row_def)
  from ij(2) obtain l0 where l0: "l0 \<in> set (lines network)" "bus_pair l0 = Some (i, j)" by force
  then obtain i0 j0 where p: "py_int (bus0 l0) = Inr i0" "py_int (bus1 l0) = Inr j0"
    "i = min i0 j0" "j = max i0 j0"
    by (auto simp: bus_pair_def dest: np_int64_py_int split: sum.splits)
  show "\<exists>i j. py_int (bus0 l) = Inr i \<and> py_int (bus1 l) = Inr j \<and> i \<le> j \<and>
             (\<exists>l0 \<in> set (lines network). \<exists>i0 j0.
                 py_int (bus0 l0) = Inr i0 \<and> py_int (bus1 l0) = Inr j0 \<and>
                 bus0 l = str (min i0 j0) \<and> bus1 l = str (max i0 j0))"
    using ij(1) b l0(1) p by (intro exI [of _ i] exI [of _ j]) (auto simp: py_int_str)
next
  fix l0
  assume l0: "l0 \<in> set (lines network)"
  from assms obtain old where ord: "order_all (lines network) = Inr old"
    by (auto simp: group_parallel_lines_def split: sum.splits)
  from list_all2_left [OF order_all_rel [OF ord] l0]
  obtain l1 where l1: "l1 \<in> set old" "order_buses l0 = Inr l1" by blast
  from order_buses_fields [OF l1(2)] obtain i j where
    ij: "bus_pair l0 = Some (i, j)" "l1 = l0\<lparr>bus0 := str i, bus1 := str j\<rparr>" by blast
  then obtain i0 j0 where p: "py_int (bus0 l0) = Inr i0" "py_int (bus1 l0) = Inr j0"
    "i = min i0 j0" "j = max i0 j0"
    by (auto simp: bus_pair_def dest: np_int64_py_int split: sum.splits)
  let ?k = "(str i, str j)"
  have key: "?k \<in> set (map (\<lambda>row. (bus0 row, bus1 row)) old)"
    using l1(1) ij(2) by force
  from group_parallel_lines_lines [OF ord, of fl] assms
  have new: "lines network' =
      map (\<lambda>k. agg_row fl (k, filter (\<lambda>row. (bus0 row, bus1 row) = k) old))
        (sort (remdups (map (\<lambda>row. (bus0 row, bus1 row)) old)))"
    by auto
  let ?l = "agg_row fl (?k, filter (\<lambda>row. (bus0 row, bus1 row) = ?k) old)"
  have "?k \<in> set (sort (remdups (map (\<lambda>row. (bus0 row, bus1 row)) old)))"
    using key by simp
  then have "?l \<in> set (lines network')" unfolding new set_map by (rule imageI)
  moreover have "bus0 ?l = str i" "bus1 ?l = str j" by (simp_all add: agg_row_def)
  ultimately have "\<exists>l \<in> set (lines network'). bus0 l = str (min i0 j0) \<and> bus1 l = str (max i0 j0)"
    using p(3,4) by blast
  with p(1,2) show "\<exists>i0 j0. py_int (bus0 l0) = Inr i0 \<and> py_int (bus1 l0) = Inr j0 \<and>
             (\<exists>l \<in> set (lines network').
                 bus0 l = str (min i0 j0) \<and> bus1 l = str (max i0 j0))"
    by blast
qed

theorem group_parallel_lines_ordered_witness:
  "bus0 (hd (lines net_par)) = ''2'' \<and> bus1 (hd (lines net_par)) = ''1'' \<and>
   (\<exists>n'. group_parallel_lines exact net_par = Inr n' \<and>
     (\<exists>l \<in> set (lines n'). bus0 l = ''1'' \<and> bus1 l = ''2'') \<and>
     list_all (\<lambda>l. \<exists>i j. py_int (bus0 l) = Inr i \<and> py_int (bus1 l) = Inr j \<and> i \<le> j) (lines n'))"
proof -
  from net_par_run obtain n' where run: "group_parallel_lines exact net_par = Inr n'" by blast
  note both = group_parallel_lines_ordered [OF run]
  from both
  have ordered: "list_all (\<lambda>l. \<exists>i j. py_int (bus0 l) = Inr i \<and> py_int (bus1 l) = Inr j \<and> i \<le> j) (lines n')"
    unfolding list_all_iff by blast
  have first: "hd (lines net_par) \<in> set (lines net_par)"
    "bus0 (hd (lines net_par)) = ''2''" "bus1 (hd (lines net_par)) = ''1''"
    by (simp_all add: net_par_def mk_line_def)
  from both first(1) obtain i0 j0 where
    p: "py_int (bus0 (hd (lines net_par))) = Inr i0" "py_int (bus1 (hd (lines net_par))) = Inr j0"
    and l: "\<exists>l \<in> set (lines n'). bus0 l = str (min i0 j0) \<and> bus1 l = str (max i0 j0)"
    by blast
  from p have "i0 = 2" "j0 = 1" by (simp_all add: first py_int_9)
  with l have "\<exists>l \<in> set (lines n'). bus0 l = ''1'' \<and> bus1 l = ''2''"
    by (simp add: str_small)
  with run ordered first show ?thesis by blast
qed

text \<open>
  Claim C1, as it reads. The claim is made for every network and says that the new line
  keeps the smallest old index of its group. The old index is a column of labels, and
  \<^verbatim>\<open>np.min\<close> on labels compares strings: the lines 9 and 10 between the buses 1 and 2 are
  replaced by a line labelled 10.
\<close>

theorem group_parallel_lines_index_counterexample:
  "\<exists>n'. group_parallel_lines exact net_par = Inr n' \<and>
     map index (lines n') = [''10'', ''11''] \<and>
     map index (filter (\<lambda>l0. bus_pair l0 = Some (1, 2)) (lines net_par)) = [''9'', ''10''] \<and>
     py_int ''9'' = Inr 9 \<and> py_int ''10'' = Inr 10 \<and> (9::int) < 10"
proof -
  from net_par_run obtain n' where run: "group_parallel_lines exact net_par = Inr n'"
    and idx: "map index (lines n') = [''10'', ''11'']" by auto
  have grp: "map index (filter (\<lambda>l0. bus_pair l0 = Some (1, 2)) (lines net_par)) = [''9'', ''10'']"
    by (simp add: net_par_def mk_line_def bus_pair_def np_int64_9)
  show ?thesis using run idx grp py_int_9 by auto
qed

text \<open>
  Claim C1, amended. For every network whose lines have bus labels that read as integers,
  \<^verbatim>\<open>group_parallel_lines\<close> returns and replaces \<^verbatim>\<open>network.lines\<close>: the new table has
  exactly one line for each unordered pair of bus numbers of the old table. For such a
  line, let \<open>G\<close> be the old lines with its pair of bus numbers, in table order. Then
  \<^verbatim>\<open>b\<close>, \<^verbatim>\<open>b_pu\<close>, \<^verbatim>\<open>cables\<close>, \<^verbatim>\<open>g\<close>, \<^verbatim>\<open>g_pu\<close>, \<^verbatim>\<open>num_parallel\<close>, \<^verbatim>\<open>s_nom\<close>, \<^verbatim>\<open>s_nom_max\<close>,
  \<^verbatim>\<open>s_nom_min\<close> and \<^verbatim>\<open>s_nom_opt\<close> are the sum over \<open>G\<close>; \<^verbatim>\<open>capital_cost\<close> and \<^verbatim>\<open>length\<close> are
  the minimum; \<^verbatim>\<open>frequency\<close> is the mean; \<^verbatim>\<open>r\<close>, \<^verbatim>\<open>r_pu\<close>, \<^verbatim>\<open>x\<close> and \<^verbatim>\<open>x_pu\<close> are the
  reciprocal of the sum of the reciprocals; and the line is labelled with the old label
  of \<open>G\<close> that is least in string order. Sum, minimum, mean and reciprocal are the
  library's floating-point operations.
\<close>

theorem group_parallel_lines_aggregates:
  assumes parse: "\<forall>l \<in> set (lines network). bus_pair l \<noteq> None"
  shows "\<exists>network'. group_parallel_lines fl network = Inr network' \<and>
     distinct (map bus_pair (lines network')) \<and>
     set (map bus_pair (lines network')) = set (map bus_pair (lines network)) \<and>
     (\<forall>l \<in> set (lines network').
        (let G = filter (\<lambda>l0. bus_pair l0 = bus_pair l) (lines network) in
           G \<noteq> [] \<and>
           b_col l = np_sum fl (map b_col G) \<and>
           b_pu l = np_sum fl (map b_pu G) \<and>
           cables l = np_sum fl (map cables G) \<and>
           g_col l = np_sum fl (map g_col G) \<and>
           g_pu l = np_sum fl (map g_pu G) \<and>
           num_parallel l = np_sum fl (map num_parallel G) \<and>
           s_nom l = np_sum fl (map s_nom G) \<and>
           s_nom_max l = np_sum fl (map s_nom_max G) \<and>
           s_nom_min l = np_sum fl (map s_nom_min G) \<and>
           s_nom_opt l = np_sum fl (map s_nom_opt G) \<and>
           capital_cost l = np_min fl (map capital_cost G) \<and>
           length_col l = series_min fl (map length_col G) \<and>
           frequency l = np_mean fl (map frequency G) \<and>
           r_col l = np_reciprocal fl (np_sum fl (map (np_reciprocal fl) (map r_col G))) \<and>
           r_pu l = np_reciprocal fl (np_sum fl (map (np_reciprocal fl) (map r_pu G))) \<and>
           x_col l = np_reciprocal fl (np_sum fl (map (np_reciprocal fl) (map x_col G))) \<and>
           x_pu l = np_reciprocal fl (np_sum fl (map (np_reciprocal fl) (map x_pu G))) \<and>
           index l = Min (set (map index G))))"
proof -
  let ?ls = "lines network"
  from order_all_returns [OF parse] obtain old where ord: "order_all ?ls = Inr old" ..
  from group_parallel_lines_lines [OF ord, of fl] obtain network' where
    run: "group_parallel_lines fl network = Inr network'"
    and new: "lines network' =
             map (\<lambda>k. agg_row fl (k, filter (\<lambda>row. (bus0 row, bus1 row) = k) old))
               (sort (remdups (map (\<lambda>row. (bus0 row, bus1 row)) old)))"
    by blast
  let ?keys = "sort (remdups (map (\<lambda>row. (bus0 row, bus1 row)) old))"
  let ?agg = "\<lambda>k. agg_row fl (k, filter (\<lambda>row. (bus0 row, bus1 row) = k) old)"
  have key_pair: "\<exists>i j. k = (str i, str j) \<and> i \<le> j \<and> Some (i, j) \<in> bus_pair ` set ?ls \<and>
                   bus_pair (?agg k) = Some (i, j)" if "k \<in> set ?keys" for k
  proof -
    from that ordered_keys [OF ord, of k] obtain i j where
      ij: "k = (str i, str j)" "Some (i, j) \<in> bus_pair ` set ?ls" by auto
    from ij(2) have "i \<le> j" by (auto dest: bus_pair_ordered [OF sym])
    moreover from ij(2) have "int64 i" "int64 j" by (auto dest: bus_pair_range [OF sym])
    ultimately show ?thesis using ij agg_row_bus_pair by blast
  qed
  have inj: "inj_on (\<lambda>k. bus_pair (?agg k)) (set ?keys)"
  proof (rule inj_onI)
    fix k k'
    assume k: "k \<in> set ?keys" and k': "k' \<in> set ?keys"
      and eq: "bus_pair (?agg k) = bus_pair (?agg k')"
    from key_pair [OF k] obtain i j where a: "k = (str i, str j)" "bus_pair (?agg k) = Some (i, j)"
      by blast
    from key_pair [OF k'] obtain i' j' where
      a': "k' = (str i', str j')" "bus_pair (?agg k') = Some (i', j')"
      by blast
    from eq a(2) a'(2) have "i = i'" "j = j'" by simp_all
    with a(1) a'(1) show "k = k'" by simp
  qed
  have dist: "distinct (map bus_pair (lines network'))"
    using inj by (simp add: new comp_def distinct_map)
  have sets: "set (map bus_pair (lines network')) = set (map bus_pair ?ls)"
  proof
    show "set (map bus_pair (lines network')) \<subseteq> set (map bus_pair ?ls)"
    proof
      fix p
      assume "p \<in> set (map bus_pair (lines network'))"
      then obtain k where k: "k \<in> set ?keys" "p = bus_pair (?agg k)" by (auto simp: new)
      from key_pair [OF k(1)] k(2) show "p \<in> set (map bus_pair ?ls)" by force
    qed
    show "set (map bus_pair ?ls) \<subseteq> set (map bus_pair (lines network'))"
    proof
      fix p
      assume "p \<in> set (map bus_pair ?ls)"
      then obtain l0 where l0: "l0 \<in> set ?ls" "p = bus_pair l0" by auto
      with parse obtain i j where ij: "bus_pair l0 = Some (i, j)" by fastforce
      with l0 have "Some (i, j) \<in> bus_pair ` set ?ls" by force
      then have k: "(str i, str j) \<in> set ?keys" using ordered_keys [OF ord, of "(str i, str j)"] by auto
      from key_pair [OF k] have "bus_pair (?agg (str i, str j)) = Some (i, j)"
        by (auto dest: str_inj)
      with k l0 ij show "p \<in> set (map bus_pair (lines network'))"
        by (force simp: new)
    qed
  qed
  have rows: "(let G = filter (\<lambda>l0. bus_pair l0 = bus_pair l) ?ls in
           G \<noteq> [] \<and>
           b_col l = np_sum fl (map b_col G) \<and>
           b_pu l = np_sum fl (map b_pu G) \<and>
           cables l = np_sum fl (map cables G) \<and>
           g_col l = np_sum fl (map g_col G) \<and>
           g_pu l = np_sum fl (map g_pu G) \<and>
           num_parallel l = np_sum fl (map num_parallel G) \<and>
           s_nom l = np_sum fl (map s_nom G) \<and>
           s_nom_max l = np_sum fl (map s_nom_max G) \<and>
           s_nom_min l = np_sum fl (map s_nom_min G) \<and>
           s_nom_opt l = np_sum fl (map s_nom_opt G) \<and>
           capital_cost l = np_min fl (map capital_cost G) \<and>
           length_col l = series_min fl (map length_col G) \<and>
           frequency l = np_mean fl (map frequency G) \<and>
           r_col l = np_reciprocal fl (np_sum fl (map (np_reciprocal fl) (map r_col G))) \<and>
           r_pu l = np_reciprocal fl (np_sum fl (map (np_reciprocal fl) (map r_pu G))) \<and>
           x_col l = np_reciprocal fl (np_sum fl (map (np_reciprocal fl) (map x_col G))) \<and>
           x_pu l = np_reciprocal fl (np_sum fl (map (np_reciprocal fl) (map x_pu G))) \<and>
           index l = Min (set (map index G)))"
    if l: "l \<in> set (lines network')" for l
  proof -
    from grouped_line [OF ord run l] obtain i j where
      ij: "i \<le> j" "Some (i, j) \<in> bus_pair ` set ?ls"
      and range: "int64 i" "int64 j"
      and lk: "l = agg_row fl ((str i, str j),
                 filter (\<lambda>row. (bus0 row, bus1 row) = (str i, str j)) old)"
      by blast
    let ?rows = "filter (\<lambda>row. (bus0 row, bus1 row) = (str i, str j)) old"
    let ?G = "filter (\<lambda>l0. bus_pair l0 = Some (i, j)) ?ls"
    have bp: "bus_pair l = Some (i, j)"
      using lk agg_row_bus_pair [OF ij(1) range] by simp
    have ne: "?G \<noteq> []"
      using ij(2) by (force simp: filter_empty_conv)
    have col: "map f (filter (\<lambda>row. bus0 row = str i \<and> bus1 row = str j) old) = map f ?G"
      if "\<And>l a b'. f (l\<lparr>bus0 := a, bus1 := b'\<rparr>) = f l" for f :: "('a, 'b, 'c) line_scheme \<Rightarrow> 'v"
      using ordered_group_column [OF ord, of f i j] that by simp
    have idx: "least (map index ?G) = Min (set (map index ?G))"
      using ne by (intro least_Min) simp
    have f1: "b_col l = np_sum fl (map b_col ?G)" by (simp add: lk agg_row_def col)
    have f2: "b_pu l = np_sum fl (map b_pu ?G)" by (simp add: lk agg_row_def col)
    have f3: "cables l = np_sum fl (map cables ?G)" by (simp add: lk agg_row_def col)
    have f4: "g_col l = np_sum fl (map g_col ?G)" by (simp add: lk agg_row_def col)
    have f5: "g_pu l = np_sum fl (map g_pu ?G)" by (simp add: lk agg_row_def col)
    have f6: "num_parallel l = np_sum fl (map num_parallel ?G)" by (simp add: lk agg_row_def col)
    have f7: "s_nom l = np_sum fl (map s_nom ?G)" by (simp add: lk agg_row_def col)
    have f8: "s_nom_max l = np_sum fl (map s_nom_max ?G)" by (simp add: lk agg_row_def col)
    have f9: "s_nom_min l = np_sum fl (map s_nom_min ?G)" by (simp add: lk agg_row_def col)
    have f10: "s_nom_opt l = np_sum fl (map s_nom_opt ?G)" by (simp add: lk agg_row_def col)
    have f11: "capital_cost l = np_min fl (map capital_cost ?G)" by (simp add: lk agg_row_def col)
    have f12: "length_col l = series_min fl (map length_col ?G)" by (simp add: lk agg_row_def col)
    have f13: "frequency l = np_mean fl (map frequency ?G)" by (simp add: lk agg_row_def col)
    have f14: "r_col l = np_reciprocal fl (np_sum fl (map (np_reciprocal fl) (map r_col ?G)))"
      by (simp add: lk agg_row_def reciprocal_sum_def col)
    have f15: "r_pu l = np_reciprocal fl (np_sum fl (map (np_reciprocal fl) (map r_pu ?G)))"
      by (simp add: lk agg_row_def reciprocal_sum_def col)
    have f16: "x_col l = np_reciprocal fl (np_sum fl (map (np_reciprocal fl) (map x_col ?G)))"
      by (simp add: lk agg_row_def reciprocal_sum_def col)
    have f17: "x_pu l = np_reciprocal fl (np_sum fl (map (np_reciprocal fl) (map x_pu ?G)))"
      by (simp add: lk agg_row_def reciprocal_sum_def col)
    have f18: "index l = Min (set (map index ?G))"
      using idx by (simp add: lk agg_row_def col)
    show ?thesis
      unfolding Let_def bp using ne f1 f2 f3 f4 f5 f6 f7 f8 f9 f10 f11 f12 f13 f14 f15 f16 f17 f18
      by blast
  qed
  show ?thesis using run dist sets rows by blast
qed

theorem group_parallel_lines_aggregates_witness:
  "\<exists>n'. group_parallel_lines exact net_par = Inr n' \<and>
     set (map bus_pair (lines n')) = {Some (1, 2), Some (2, 3)} \<and>
     distinct (map bus_pair (lines n'))"
proof -
  have "\<forall>l \<in> set (lines net_par). bus_pair l \<noteq> None"
    using net_par_pairs by (metis (no_types, lifting) in_set_conv_nth length_map nth_map
        option.distinct(1) nth_mem set_ConsD empty_iff empty_set list.set_map imageI)
  from group_parallel_lines_aggregates [OF this, of exact] net_par_pairs
  show ?thesis by auto
qed

section \<open>The export of the results\<close>















section \<open>Losses\<close>

lemma by_label_labels: "map fst (by_label F ls) = ls"
  by (simp add: by_label_def comp_def)

lemma by_label_lookup: "c \<in> set ls \<Longrightarrow> map_of (by_label F ls) c = Some (F c)"
  by (simp add: by_label_def map_of_map_restrict)

lemma by_label_cong: "(\<And>c. c \<in> set ls \<Longrightarrow> F c = G c) \<Longrightarrow> by_label F ls = by_label G ls"
  by (simp add: by_label_def)

lemma frame_by_label:
  assumes "distinct (map fst df)"
  shows "df = by_label (\<lambda>c. the (map_of df c)) (map fst df)"
proof -
  have "map (\<lambda>x. (fst x, the (map_of df (fst x)))) df = map (\<lambda>x. x) df"
  proof (rule map_cong [OF refl])
    fix x assume "x \<in> set df"
    then have "(fst x, snd x) \<in> set df" by simp
    then have "map_of df (fst x) = Some (snd x)" using assms by (simp only: map_of_eq_Some_iff)
    then show "(fst x, the (map_of df (fst x))) = x" by (cases x) simp
  qed
  then show ?thesis by (simp add: by_label_def comp_def)
qed

lemma frame_map_by_label: "frame_map f (by_label F ls) = by_label (\<lambda>c. map f (F c)) ls"
  by (simp add: frame_map_def by_label_def)

lemma column_of_by_label:
  "c \<in> set ls \<Longrightarrow> column_of fill nrows (by_label F ls) c = F c"
  by (simp add: column_of_def by_label_lookup)

lemma union_labels_same: "union_labels a a = a"
  by (simp add: union_labels_def)

lemma frame_frame_by_label:
  "frame_frame fill nrows op (by_label F ls) (by_label G ls) =
   by_label (\<lambda>c. map2 op (F c) (G c)) ls"
proof -
  have "map (\<lambda>c. (c, map2 op (column_of fill nrows (by_label F ls) c)
                      (column_of fill nrows (by_label G ls) c))) ls =
        map (\<lambda>c. (c, map2 op (F c) (G c))) ls"
    by (rule map_cong [OF refl]) (simp add: column_of_by_label)
  then show ?thesis
    by (simp add: frame_frame_def by_label_labels union_labels_same) (simp add: by_label_def)
qed

lemma frame_series_by_label:
  assumes "map fst ser = ls"
  shows "frame_series fill nrows op (by_label F ls) ser =
         by_label (\<lambda>c. map (\<lambda>v. op v (value_of fill ser c)) (F c)) ls"
proof -
  have "map (\<lambda>c. (c, map (\<lambda>v. op v (value_of fill ser c))
                      (column_of fill nrows (by_label F ls) c))) ls =
        map (\<lambda>c. (c, map (\<lambda>v. op v (value_of fill ser c)) (F c))) ls"
    by (rule map_cong [OF refl]) (simp add: column_of_by_label)
  then show ?thesis
    using assms
    by (simp add: frame_series_def by_label_labels union_labels_same) (simp add: by_label_def)
qed

lemma series_labels: "map fst (series_map f (series col idx df)) = map idx df"
  by (simp add: series_map_def series_def comp_def)

lemma series_value:
  assumes "distinct (map idx df)" "row \<in> set df"
  shows "value_of fill (series_map f (series col idx df)) (idx row) = f (col row)"
    and "value_of fill (series col idx df) (idx row) = col row"
proof -
  have d: "distinct (map fst (map (\<lambda>row. (idx row, f (col row))) df))"
    "distinct (map fst (map (\<lambda>row. (idx row, col row)) df))"
    using assms(1) by (simp_all add: comp_def)
  have "(idx row, f (col row)) \<in> set (map (\<lambda>row. (idx row, f (col row))) df)"
    "(idx row, col row) \<in> set (map (\<lambda>row. (idx row, col row)) df)"
    using assms(2) by auto
  with d have "map_of (map (\<lambda>row. (idx row, f (col row))) df) (idx row) = Some (f (col row))"
    "map_of (map (\<lambda>row. (idx row, col row)) df) (idx row) = Some (col row)"
    by (simp_all only: map_of_eq_Some_iff)
  then show "value_of fill (series_map f (series col idx df)) (idx row) = f (col row)"
    and "value_of fill (series col idx df) (idx row) = col row"
    by (simp_all add: value_of_def series_map_def series_def comp_def)
qed

lemma map2_fuse:
  "map h (map2 g (map f xs) (map f' ys)) = map2 (\<lambda>x y. h (g (f x) (f' y))) xs ys"
  by (induction xs ys rule: list_induct2') simp_all

lemma loss_column:
  "map h5 (map h4 (map h3 (map h2 (map h1 (map h0 (map2 g (map f ps) (map f qs))))))) =
   map2 (\<lambda>p q. h5 (h4 (h3 (h2 (h1 (h0 (g (f p) (f q)))))))) ps qs"
  by (induction ps qs rule: list_induct2') simp_all

lemma losses_t_by_label:
  assumes p0: "map fst (lines_t_p0 network) = map index (lines network)"
    and q0: "map fst (lines_t_q0 network) = map index (lines network)"
    and dist: "distinct (map index (lines network))"
  shows "losses_t fl network =
     by_label (\<lambda>c. map2 (\<lambda>p q. float_div fl
                    (float_mul fl
                       (float_pow fl
                          (float_div fl
                             (float_mul fl (np_sqrt fl (float_add fl (float_pow fl p 2) (float_pow fl q 2)))
                                (py_float fl 1000000))
                             (value_of (nan fl)
                                (series_map (\<lambda>v. float_mul fl v (py_float fl 1000))
                                   (series line_v_nom index (lines network))) c)) 2)
                       (value_of (nan fl) (series r_col index (lines network)) c))
                    (py_float fl 1000000))
                  (the (map_of (lines_t_p0 network) c)) (the (map_of (lines_t_q0 network) c)))
       (map index (lines network))"
proof -
  let ?L = "map index (lines network)"
  define Pf where "Pf = (\<lambda>c. the (map_of (lines_t_p0 network) c))"
  define Qf where "Qf = (\<lambda>c. the (map_of (lines_t_q0 network) c))"
  have P: "lines_t_p0 network = by_label Pf ?L"
    using frame_by_label [of "lines_t_p0 network"] p0 dist by (simp add: Pf_def)
  have Q: "lines_t_q0 network = by_label Qf ?L"
    using frame_by_label [of "lines_t_q0 network"] q0 dist by (simp add: Qf_def)
  have V: "map fst (series_map (\<lambda>v. float_mul fl v (py_float fl 1000))
                      (series line_v_nom index (lines network))) = ?L"
    by (rule series_labels)
  have R: "map fst (series r_col index (lines network)) = ?L"
    by (simp add: series_def comp_def)
  have "losses_t fl network =
     by_label (\<lambda>c. map2 (\<lambda>p q. float_div fl
                    (float_mul fl
                       (float_pow fl
                          (float_div fl
                             (float_mul fl (np_sqrt fl (float_add fl (float_pow fl p 2) (float_pow fl q 2)))
                                (py_float fl 1000000))
                             (value_of (nan fl)
                                (series_map (\<lambda>v. float_mul fl v (py_float fl 1000))
                                   (series line_v_nom index (lines network))) c)) 2)
                       (value_of (nan fl) (series r_col index (lines network)) c))
                    (py_float fl 1000000))
                  (Pf c) (Qf c)) ?L"
    unfolding losses_t_def i0_lines_def s0_lines_def
    by (simp only: P Q frame_map_by_label frame_frame_by_label frame_series_by_label [OF V]
        frame_series_by_label [OF R] loss_column)
  then show ?thesis by (simp only: Pf_def Qf_def)
qed

lemma zip_map_same: "zip xs (map f (map h xs)) = map (\<lambda>x. (x, f (h x))) xs"
  by (induction xs) simp_all

lemma sqrt_25: "sqrt 25 = 5"
  by (rule real_sqrt_unique) simp_all

lemma exact_loss: "line_loss exact (Some 3) (Some 4) (Some 110) (Some 2) = Some (1 / 242)"
  by (simp add: line_loss_def current_def exact_def lift2_def sqrt_25 power2_eq_square)

lemma exact_trafo:
  "float_mul exact (Some 1000) (float_sub exact (py_float exact 1) (float_literal exact 998 3)) = Some 2"
  by (simp add: exact_def lift2_def)

text \<open>
  Claim C2. For every network with power-flow results (the columns of \<^verbatim>\<open>lines_t.p0\<close>
  and \<^verbatim>\<open>lines_t.q0\<close> are the lines, in table order, under unique labels),
  \<^verbatim>\<open>calc_line_losses\<close> returns; for every line and every snapshot the entry of
  \<^verbatim>\<open>lines_t.losses\<close> is \<open>I^2 * r / 10^6\<close> with the current
  \<open>I = sqrt(p0^2 + q0^2) * 10^6 / (v_nom * 10^3)\<close>; the \<^verbatim>\<open>losses\<close> of a line is the sum
  of its column over the snapshots; and the \<^verbatim>\<open>losses\<close> of a transformer is
  \<open>s_nom * (1 - 0.998)\<close>.
\<close>

theorem calc_line_losses_formulas:
  assumes p0: "map fst (lines_t_p0 network) = map index (lines network)"
    and q0: "map fst (lines_t_q0 network) = map index (lines network)"
    and dist: "distinct (map index (lines network))"
  shows "\<exists>network'. calc_line_losses fl network = Inr network' \<and>
     map fst (lines_t_losses network') = map index (lines network) \<and>
     (\<forall>l \<in> set (lines network).
        \<exists>p q. map_of (lines_t_p0 network) (index l) = Some p \<and>
              map_of (lines_t_q0 network) (index l) = Some q \<and>
              map_of (lines_t_losses network') (index l) =
                Some (map2 (\<lambda>p0 q0. line_loss fl p0 q0 (line_v_nom l) (r_col l)) p q)) \<and>
     lines network' =
       map (\<lambda>l. (l, np_sum fl (the (map_of (lines_t_losses network') (index l))))) (lines network) \<and>
     transformers network' =
       map (\<lambda>t. (t, float_mul fl (trafo_s_nom t)
                      (float_sub fl (py_float fl 1) (float_literal fl 998 3))))
         (transformers network)"
proof -
  let ?L = "map index (lines network)"
  let ?V = "series_map (\<lambda>v. float_mul fl v (py_float fl 1000))
              (series line_v_nom index (lines network))"
  let ?R = "series r_col index (lines network)"
  let ?F = "\<lambda>c. map2 (\<lambda>p q. float_div fl
                    (float_mul fl
                       (float_pow fl
                          (float_div fl
                             (float_mul fl (np_sqrt fl (float_add fl (float_pow fl p 2) (float_pow fl q 2)))
                                (py_float fl 1000000))
                             (value_of (nan fl) ?V c)) 2)
                       (value_of (nan fl) ?R c))
                    (py_float fl 1000000))
                  (the (map_of (lines_t_p0 network) c)) (the (map_of (lines_t_q0 network) c))"
  have losses: "losses_t fl network = by_label ?F ?L"
    using p0 q0 dist by (rule losses_t_by_label)
  let ?sums = "map (\<lambda>(c, col). np_sum fl col) (losses_t fl network)"
  have sums: "?sums = map (\<lambda>c. np_sum fl (?F c)) ?L"
    unfolding losses by (simp add: by_label_def comp_def)
  have look: "map_of (losses_t fl network) (index l) = Some (?F (index l))"
    if "l \<in> set (lines network)" for l
    unfolding losses using that by (intro by_label_lookup) simp
  let ?new_lines = "map (\<lambda>l. (l, np_sum fl (?F (index l)))) (lines network)"
  have "zip (lines network) (map (\<lambda>c. np_sum fl (?F c)) (map index (lines network))) = ?new_lines"
    by (rule zip_map_same)
  then have a1: "assign (lines network) ?sums = Inr ?new_lines"
    unfolding sums assign_def by simp
  let ?tl = "\<lambda>v. float_mul fl v (float_sub fl (py_float fl 1) (float_literal fl 998 3))"
  let ?new_trafos = "map (\<lambda>t. (t, ?tl (trafo_s_nom t))) (transformers network)"
  have "zip (transformers network) (map ?tl (map trafo_s_nom (transformers network))) = ?new_trafos"
    by (rule zip_map_same)
  then have a2: "assign (transformers network) (map ?tl (map trafo_s_nom (transformers network)))
              = Inr ?new_trafos"
    unfolding assign_def by simp
  let ?n' = "\<lparr>buses = buses network, lines = ?new_lines,
                     transformers = ?new_trafos, generators = generators network,
                     loads = loads network, carriers = carriers network,
                     snapshots = snapshots network, loads_t_p_set = loads_t_p_set network,
                     generators_t_p_set = generators_t_p_set network,
                     generators_t_p = generators_t_p network,
                     lines_t_p0 = lines_t_p0 network, lines_t_q0 = lines_t_q0 network,
                     lines_t_losses = losses_t fl network, \<dots> = pf_network.more network\<rparr>"
  have run: "calc_line_losses fl network = Inr ?n'"
    unfolding calc_line_losses_def Let_def a1 a2 by simp
  have c1: "map fst (lines_t_losses ?n') = ?L"
    by (simp add: losses by_label_labels)
  have c2: "\<exists>p q. map_of (lines_t_p0 network) (index l) = Some p \<and>
              map_of (lines_t_q0 network) (index l) = Some q \<and>
              map_of (lines_t_losses ?n') (index l) =
                Some (map2 (\<lambda>p0 q0. line_loss fl p0 q0 (line_v_nom l) (r_col l)) p q)"
    if l: "l \<in> set (lines network)" for l
  proof -
    have "index l \<in> fst ` set (lines_t_p0 network)" "index l \<in> fst ` set (lines_t_q0 network)"
      using l p0 q0 by (metis image_eqI list.set_map)+
    then obtain p q where pq: "map_of (lines_t_p0 network) (index l) = Some p"
      "map_of (lines_t_q0 network) (index l) = Some q"
      by (meson map_of_eq_None_iff not_None_eq)
    have v: "value_of (nan fl) ?V (index l) = float_mul fl (line_v_nom l) (py_float fl 1000)"
      using dist l by (rule series_value(1))
    have r: "value_of (nan fl) ?R (index l) = r_col l"
      using dist l by (rule series_value(2))
    have "?F (index l) = map2 (\<lambda>p0 q0. line_loss fl p0 q0 (line_v_nom l) (r_col l)) p q"
      by (simp add: v r pq line_loss_def current_def)
    with look [OF l] pq show ?thesis by simp
  qed
  have c3: "lines ?n' =
       map (\<lambda>l. (l, np_sum fl (the (map_of (lines_t_losses ?n') (index l))))) (lines network)"
    using look by simp
  have c4: "transformers ?n' = ?new_trafos" by simp
  show ?thesis using run c1 c2 c3 c4 by blast
qed

theorem calc_line_losses_formulas_witness:
  "\<exists>n'. calc_line_losses exact net_pf = Inr n' \<and>
     lines_t_losses n' = [(''1'', [Some (1 / 242)])] \<and>
     map snd (transformers n') = [Some 2]"
proof -
  have h: "map fst (lines_t_p0 net_pf) = map index (lines net_pf)"
    "map fst (lines_t_q0 net_pf) = map index (lines net_pf)"
    "distinct (map index (lines net_pf))"
    by (simp_all add: net_pf_def)
  from calc_line_losses_formulas [OF h, of exact] obtain n' where
    run: "calc_line_losses exact net_pf = Inr n'"
    and lab: "map fst (lines_t_losses n') = map index (lines net_pf)"
    and cols: "\<forall>l \<in> set (lines net_pf).
        \<exists>p q. map_of (lines_t_p0 net_pf) (index l) = Some p \<and>
              map_of (lines_t_q0 net_pf) (index l) = Some q \<and>
              map_of (lines_t_losses n') (index l) =
                Some (map2 (\<lambda>p0 q0. line_loss exact p0 q0 (line_v_nom l) (r_col l)) p q)"
    and tr: "transformers n' =
       map (\<lambda>t. (t, float_mul exact (trafo_s_nom t)
                      (float_sub exact (py_float exact 1) (float_literal exact 998 3))))
         (transformers net_pf)"
    by blast
  from lab obtain col where one: "lines_t_losses n' = [(''1'', col)]"
    by (cases "lines_t_losses n'") (auto simp: net_pf_def)
  from cols have "map_of (lines_t_losses n') ''1'' = Some [line_loss exact (Some 3) (Some 4) (Some 110) (Some 2)]"
    by (simp add: net_pf_def)
  with one have "col = [Some (1 / 242)]" by (simp add: exact_loss)
  moreover have "map snd (transformers n') = [Some 2]"
    unfolding tr by (simp add: net_pf_def exact_trafo)
  ultimately show ?thesis using run one by auto
qed

end
